theory Spec2Isabelle
  imports
    Complex_Main
    "HOL-Library.Char_ord"
    "HOL-Library.List_Lexorder"
    "HOL-Library.Product_Lexorder"
    "HOL-Library.Multiset"
begin

section \<open>Cells, numbers and missing values\<close>

text \<open>
  The dashboards work on pandas data frames read from CSV files.  A data frame is modelled
  as the list of its rows, in frame order; every dashboard has its own row record with the
  columns its code reads.

  A numeric cell is a finite measurement or missing (pandas' NaN, produced by
  \<^verbatim>\<open>pd.to_numeric(..., errors='coerce')\<close> or by an empty CSV cell): \<open>real option\<close> for
  the value columns, \<open>int option\<close> for the year columns.  Finite values are reals: the
  rounding and the overflow of float64 are not modelled, nor is the sign of a zero, except
  where the sum of the proportions is concerned: there the float64 arithmetic is written
  out with its rounding and overflow.  String columns are taken as present.

  The result of a float64 division may be one of the special values of IEEE 754, which
  neither pandas nor numpy scalars treat as an error: \<open>x / 0\<close> is an infinity of the sign of
  \<open>x\<close>, and \<open>0 / 0\<close> is NaN.
\<close>

datatype float64 = Fin real | PosInf | NegInf | NaN

text \<open>\<^verbatim>\<open>a / b\<close> on two finite float64 numbers (numpy true division).\<close>

definition truediv :: "real \<Rightarrow> real \<Rightarrow> float64" where
  "truediv a b =
     (if b \<noteq> 0 then Fin (a / b)
      else if 0 < a then PosInf
      else if a < 0 then NegInf
      else NaN)"

text \<open>\<^verbatim>\<open>v * c\<close> for a float64 \<open>v\<close> and a finite constant \<open>c\<close>.\<close>

definition times_const :: "float64 \<Rightarrow> real \<Rightarrow> float64" where
  "times_const v c =
     (case v of
        Fin x \<Rightarrow> Fin (x * c)
      | NaN \<Rightarrow> NaN
      | PosInf \<Rightarrow> (if 0 < c then PosInf else if c < 0 then NegInf else NaN)
      | NegInf \<Rightarrow> (if 0 < c then NegInf else if c < 0 then PosInf else NaN))"

text \<open>
  Comparisons of a year column with a bound: a comparison with NaN is False, so a row
  whose year is missing passes neither \<^verbatim>\<open>>=\<close> nor \<^verbatim>\<open><=\<close>.
\<close>

definition ge_na :: "int option \<Rightarrow> int \<Rightarrow> bool" where
  "ge_na t y = (case t of None \<Rightarrow> False | Some v \<Rightarrow> y \<le> v)"

definition le_na :: "int option \<Rightarrow> int \<Rightarrow> bool" where
  "le_na t y = (case t of None \<Rightarrow> False | Some v \<Rightarrow> v \<le> y)"


section \<open>The rows of the four data sets\<close>

text \<open>\<^verbatim>\<open>src/nutrients.py\<close>: the columns of \<^verbatim>\<open>cleaned_data.csv\<close> the dashboard reads.\<close>

record nutrient_obs =
  n_Reference_area :: string
  n_REF_AREA :: string
  n_TIME_PERIOD :: "int option"
  n_Measure :: string
  n_Nutrients :: string
  n_OBS_VALUE :: "real option"

text \<open>\<^verbatim>\<open>src/pages/erosion_charts.py\<close>: the columns of \<^verbatim>\<open>erosion_data.csv\<close>.\<close>

record erosion_obs =
  e_Country :: string
  e_Time :: "int option"
  e_Types_of_Erosion :: string
  e_EROSION_LEVEL :: string
  e_OBS_VALUE :: "real option"

text \<open>\<^verbatim>\<open>src/pages/land_charts.py\<close>: the columns of \<^verbatim>\<open>land_data.csv\<close>.\<close>

record land_obs =
  l_Country :: string
  l_Time :: "int option"
  l_Types_of_Land :: string
  l_Actual_area :: "real option"

text \<open>\<^verbatim>\<open>src/pages/greenhouse-gas.py\<close>: the columns of \<^verbatim>\<open>greenhouse.csv\<close>.\<close>

record ghg_obs =
  g_Reference_area :: string
  g_TIME_PERIOD :: "int option"
  g_MEASURE :: string
  g_OBS_VALUE :: "real option"


section \<open>Filtering\<close>

text \<open>
  \<^verbatim>\<open>NutrientDashboard.render_nutrient_page\<close>, lines 45-51.  \<open>year_range\<close> is the pair the
  slider returns, \<open>selected_areas\<close> the list the multiselect returns.
  \<^verbatim>\<open>
    filtered_data = self.data[(self.data['TIME_PERIOD'] >= self.year_range[0]) &
                              (self.data['TIME_PERIOD'] <= self.year_range[1])]
    if 'All areas' not in self.selected_areas:
        filtered_data = filtered_data[filtered_data['Reference area'].isin(self.selected_areas)]
  \<close>
\<close>

definition filtered_data :: "nutrient_obs list \<Rightarrow> string list \<Rightarrow> int \<times> int \<Rightarrow> nutrient_obs list" where
  "filtered_data data selected_areas year_range =
     (let filtered =
            [r \<leftarrow> data. ge_na (n_TIME_PERIOD r) (fst year_range) \<and>
                        le_na (n_TIME_PERIOD r) (snd year_range)]
      in if ''All areas'' \<notin> set selected_areas
         then [r \<leftarrow> filtered. n_Reference_area r \<in> set selected_areas]
         else filtered)"

text \<open>
  \<^verbatim>\<open>filter_data\<close> of \<^verbatim>\<open>erosion_charts.py\<close>, lines 73-86.  Each filter is guarded by the
  truth value of its argument: an empty list is false, and so is a missing \<open>years\<close>
  (\<open>None\<close>); the slider's pair is true whatever its two years are.
\<close>

definition erosion_filter_data ::
  "erosion_obs list \<Rightarrow> string list \<Rightarrow> (int \<times> int) option \<Rightarrow> string list \<Rightarrow> string list
     \<Rightarrow> erosion_obs list" where
  "erosion_filter_data df countries years erosion_types severity_levels =
     (let f1 = (if countries \<noteq> [] then [r \<leftarrow> df. e_Country r \<in> set countries] else df);
          f2 = (case years of
                  Some ys \<Rightarrow> [r \<leftarrow> f1. ge_na (e_Time r) (fst ys) \<and> le_na (e_Time r) (snd ys)]
                | None \<Rightarrow> f1);
          f3 = (if erosion_types \<noteq> []
                then [r \<leftarrow> f2. e_Types_of_Erosion r \<in> set erosion_types] else f2);
          f4 = (if severity_levels \<noteq> []
                then [r \<leftarrow> f3. e_EROSION_LEVEL r \<in> set severity_levels] else f3)
      in f4)"

text \<open>\<^verbatim>\<open>filter_data\<close> of \<^verbatim>\<open>land_charts.py\<close>, lines 79-90.\<close>

definition land_filter_data ::
  "land_obs list \<Rightarrow> string list \<Rightarrow> (int \<times> int) option \<Rightarrow> string list \<Rightarrow> land_obs list" where
  "land_filter_data df countries years land_types =
     (let f1 = (if countries \<noteq> [] then [r \<leftarrow> df. l_Country r \<in> set countries] else df);
          f2 = (case years of
                  Some ys \<Rightarrow> [r \<leftarrow> f1. ge_na (l_Time r) (fst ys) \<and> le_na (l_Time r) (snd ys)]
                | None \<Rightarrow> f1);
          f3 = (if land_types \<noteq> []
                then [r \<leftarrow> f2. l_Types_of_Land r \<in> set land_types] else f2)
      in f3)"

text \<open>The property a year satisfies when it lies in the closed interval.\<close>

definition year_between :: "int option \<Rightarrow> int \<Rightarrow> int \<Rightarrow> bool" where
  "year_between t lo hi = (case t of None \<Rightarrow> False | Some v \<Rightarrow> lo \<le> v \<and> v \<le> hi)"


section \<open>Reductions, grouping and joining\<close>

text \<open>The non-missing entries of a column, in order (\<^verbatim>\<open>skipna=True\<close>, the default).\<close>

definition dropna :: "'a option list \<Rightarrow> 'a list" where
  "dropna vs = concat (map (\<lambda>v. case v of None \<Rightarrow> [] | Some x \<Rightarrow> [x]) vs)"

text \<open>
  \<^verbatim>\<open>Series.sum()\<close> and the sum of a group: missing values are skipped, and with the default
  \<^verbatim>\<open>min_count=0\<close> the sum of no value at all is 0.
\<close>

definition series_sum :: "real option list \<Rightarrow> real" where
  "series_sum vs = sum_list (dropna vs)"

text \<open>
  \<^verbatim>\<open>Series.mean()\<close> and the mean of a group: missing values are skipped, and the mean of
  no value at all is NaN (no exception is raised).
\<close>

definition series_mean :: "real option list \<Rightarrow> float64" where
  "series_mean vs =
     (let xs = dropna vs
      in if xs = [] then NaN else Fin (sum_list xs / real (length xs)))"

text \<open>
  \<^verbatim>\<open>df.groupby(keys)[col]\<close>: the groups are the distinct keys of the frame in ascending
  order (\<^verbatim>\<open>sort=True\<close>), a tuple of key columns being ordered lexicographically; a row
  with a missing key column belongs to no group (\<^verbatim>\<open>dropna=True\<close>): its \<open>key\<close> is \<open>None\<close>.
  A group exists only for a key that occurs, so it has at least one row.
\<close>

definition group_keys :: "('r \<Rightarrow> 'k::linorder option) \<Rightarrow> 'r list \<Rightarrow> 'k list" where
  "group_keys key df = sort (remdups (dropna (map key df)))"

definition group_rows :: "('r \<Rightarrow> 'k option) \<Rightarrow> 'r list \<Rightarrow> 'k \<Rightarrow> 'r list" where
  "group_rows key df k = [r \<leftarrow> df. key r = Some k]"

text \<open>\<^verbatim>\<open>df.groupby(keys)[col].sum()\<close> as a frame of key and sum (\<^verbatim>\<open>reset_index\<close>).\<close>

definition groupby_sum ::
  "('r \<Rightarrow> 'k::linorder option) \<Rightarrow> ('r \<Rightarrow> real option) \<Rightarrow> 'r list \<Rightarrow> ('k \<times> real) list" where
  "groupby_sum key col df =
     map (\<lambda>k. (k, series_sum (map col (group_rows key df k)))) (group_keys key df)"

text \<open>\<^verbatim>\<open>df.groupby(keys)[col].mean()\<close> as a frame of key and mean.\<close>

definition groupby_mean ::
  "('r \<Rightarrow> 'k::linorder option) \<Rightarrow> ('r \<Rightarrow> real option) \<Rightarrow> 'r list \<Rightarrow> ('k \<times> float64) list" where
  "groupby_mean key col df =
     map (\<lambda>k. (k, series_mean (map col (group_rows key df k)))) (group_keys key df)"

text \<open>
  \<^verbatim>\<open>left.merge(right, on=key)\<close>: the inner join; every left row, in the order of the left
  frame, is paired with every right row of the same key.
\<close>

definition merge_on :: "('a \<Rightarrow> 'k) \<Rightarrow> ('b \<Rightarrow> 'k) \<Rightarrow> 'a list \<Rightarrow> 'b list \<Rightarrow> ('a \<times> 'b) list" where
  "merge_on lkey rkey left right =
     concat (map (\<lambda>l. map (\<lambda>r. (l, r)) [r \<leftarrow> right. rkey r = lkey l]) left)"


section \<open>Nutrients: proportions\<close>

text \<open>
  \<^verbatim>\<open>NutrientDashboard.render_hori_stacked_plot\<close>, lines 207-214: the frame handed to the bar
  chart, in exact arithmetic (the float64 arithmetic of the same lines follows further
  down).
  \<^verbatim>\<open>
    grouped = data.groupby(['Reference area', 'Measure'], as_index=False)['OBS_VALUE'].sum()
    total = grouped.groupby('Reference area', as_index=False)['OBS_VALUE'].sum()
    total = total.rename(columns={'OBS_VALUE': 'Total'})
    grouped = grouped.merge(total, on='Reference area')
    grouped['Proportion'] = grouped['OBS_VALUE'] / grouped['Total']
  \<close>
\<close>

record proportion_row =
  p_Reference_area :: string
  p_Measure :: string
  p_OBS_VALUE :: real
  p_Total :: real
  p_Proportion :: float64

definition render_hori_stacked_plot :: "nutrient_obs list \<Rightarrow> proportion_row list" where
  "render_hori_stacked_plot data =
     (let grouped = groupby_sum (\<lambda>r. Some (n_Reference_area r, n_Measure r)) n_OBS_VALUE data;
          total = groupby_sum (\<lambda>g. Some (fst (fst g))) (\<lambda>g. Some (snd g)) grouped;
          merged = merge_on (\<lambda>g. fst (fst g)) fst grouped total
      in map (\<lambda>(g, t).
            \<lparr>p_Reference_area = fst (fst g), p_Measure = snd (fst g), p_OBS_VALUE = snd g,
             p_Total = snd t, p_Proportion = truediv (snd g) (snd t)\<rparr>) merged)"

text \<open>
  Python's \<^verbatim>\<open>format(v, '.1f')\<close>.  The digits of a finite number are left to the parameter
  \<open>fmt\<close>; the special values are printed as \<^verbatim>\<open>inf\<close>, \<^verbatim>\<open>-inf\<close> and \<^verbatim>\<open>nan\<close>.
\<close>

definition format_1f :: "(real \<Rightarrow> string) \<Rightarrow> float64 \<Rightarrow> string" where
  "format_1f fmt v =
     (case v of Fin x \<Rightarrow> fmt x | PosInf \<Rightarrow> ''inf'' | NegInf \<Rightarrow> ''-inf'' | NaN \<Rightarrow> ''nan'')"

text \<open>
  \<^verbatim>\<open>NutrientDashboard.draw_proportion_bar\<close>, lines 334-357: the two labels written into
  the bar, \<^verbatim>\<open>f"{(value1/total)*100:.1f}%"\<close> and the same for \<open>value2\<close>.
\<close>

definition draw_proportion_bar :: "(real \<Rightarrow> string) \<Rightarrow> real \<Rightarrow> real \<Rightarrow> string \<times> string" where
  "draw_proportion_bar fmt value1 value2 =
     (let total = value1 + value2
      in (format_1f fmt (times_const (truediv value1 total) 100) @ ''%'',
          format_1f fmt (times_const (truediv value2 total) 100) @ ''%''))"

text \<open>\<^verbatim>\<open>NutrientDashboard.render_nitphos\<close>, lines 326-332.\<close>

definition render_nitphos :: "(real \<Rightarrow> string) \<Rightarrow> nutrient_obs list \<Rightarrow> string \<times> string" where
  "render_nitphos fmt data =
     (let nit_in = series_sum (map n_OBS_VALUE [r \<leftarrow> data. n_Nutrients r = ''Nitrogen'']);
          phos_in = series_sum (map n_OBS_VALUE [r \<leftarrow> data. n_Nutrients r = ''Phosphorus''])
      in draw_proportion_bar fmt nit_in phos_in)"

text \<open>
  \<^verbatim>\<open>NutrientDashboard.render_stacked_bar_plot\<close>, lines 271-272: the frame of the stacked
  bars; no guard on an empty frame precedes it.
  \<^verbatim>\<open>
    data = data[data['Nutrients'] == cat_type]
    grouped = data.groupby(['Reference area', 'Measure'], as_index=False)['OBS_VALUE'].sum()
  \<close>
\<close>

definition render_stacked_bar_plot ::
  "nutrient_obs list \<Rightarrow> string \<Rightarrow> ((string \<times> string) \<times> real) list" where
  "render_stacked_bar_plot data cat_type =
     groupby_sum (\<lambda>r. Some (n_Reference_area r, n_Measure r)) n_OBS_VALUE
       [r \<leftarrow> data. n_Nutrients r = cat_type]"

text \<open>
  The total of an area as the second grouping computes it, and the row the merge and the
  division produce for a row of \<open>grouped\<close>.
\<close>

definition area_total :: "((string \<times> string) \<times> real) list \<Rightarrow> string \<Rightarrow> real" where
  "area_total grouped a = sum_list (map snd [g \<leftarrow> grouped. fst (fst g) = a])"

definition proportion_of ::
  "((string \<times> string) \<times> real) list \<Rightarrow> (string \<times> string) \<times> real \<Rightarrow> proportion_row" where
  "proportion_of grouped g =
     \<lparr>p_Reference_area = fst (fst g), p_Measure = snd (fst g), p_OBS_VALUE = snd g,
      p_Total = area_total grouped (fst (fst g)),
      p_Proportion = truediv (snd g) (area_total grouped (fst (fst g)))\<rparr>"

text \<open>How a division by a total of 0 comes out, by the sign of the dividend.\<close>

definition zero_division :: "real \<Rightarrow> float64" where
  "zero_division v = (if 0 < v then PosInf else if v < 0 then NegInf else NaN)"


section \<open>The proportions in float64 arithmetic\<close>

text \<open>
  So far a finite float64 is a real and sums and quotients are exact.  For the sum of the
  proportions the rounding and the overflow of binary64 matter, so the last lines of
  \<^verbatim>\<open>render_hori_stacked_plot\<close> (209-214) are given once more with the arithmetic of
  IEEE 754 binary64 written out: a finite value is still \<open>Fin x\<close>, every result is rounded
  to the nearest binary64 number, ties to even, and a result too large is an infinity.
  The value column is float64 (the observation's value is a float or missing); the sign
  of a zero is not modelled.
\<close>

text \<open>
  Rounding to nearest: a real of magnitude at least \<open>2^1024 - 2^970\<close> (the largest binary64
  number plus half a unit in its last place) rounds to an infinity.
\<close>

definition overflow_threshold :: real where
  "overflow_threshold = 2 ^ 1024 - 2 ^ 970"

text \<open>
  The binary exponent of a real, not below that of the smallest normal number, and the
  distance of neighbouring binary64 numbers at that exponent (53 significant bits).
\<close>

definition exponent_of :: "real \<Rightarrow> int" where
  "exponent_of x = max \<lfloor>log 2 \<bar>x\<bar>\<rfloor> (- 1022)"

definition ulp :: "real \<Rightarrow> real" where
  "ulp x = 2 powr (of_int (exponent_of x) - 52)"

text \<open>The nearest integer, the even one of two that are equally near.\<close>

definition round_half_even :: "real \<Rightarrow> int" where
  "round_half_even r =
     (let f = \<lfloor>r\<rfloor>
      in if r - of_int f < 1 / 2 then f
         else if 1 / 2 < r - of_int f then f + 1
         else if even f then f else f + 1)"

definition round64 :: "real \<Rightarrow> float64" where
  "round64 x =
     (if overflow_threshold \<le> x then PosInf
      else if x \<le> - overflow_threshold then NegInf
      else Fin (of_int (round_half_even (x / ulp x)) * ulp x))"

text \<open>The unit roundoff of binary64.\<close>

definition unit_roundoff :: real where
  "unit_roundoff = 1 / 2 ^ 53"

text \<open>\<^verbatim>\<open>a + b\<close> in float64.\<close>

fun fadd :: "float64 \<Rightarrow> float64 \<Rightarrow> float64" where
  "fadd (Fin x) (Fin y) = round64 (x + y)"
| "fadd NaN _ = NaN"
| "fadd _ NaN = NaN"
| "fadd PosInf NegInf = NaN"
| "fadd NegInf PosInf = NaN"
| "fadd PosInf _ = PosInf"
| "fadd _ PosInf = PosInf"
| "fadd NegInf _ = NegInf"
| "fadd _ NegInf = NegInf"

text \<open>
  \<^verbatim>\<open>a / b\<close> in float64 (numpy true division): a finite value over 0 is what
  \<open>zero_division\<close> says, and a finite value over an infinity is 0.
\<close>

fun fdiv :: "float64 \<Rightarrow> float64 \<Rightarrow> float64" where
  "fdiv (Fin x) (Fin y) = (if y \<noteq> 0 then round64 (x / y) else zero_division x)"
| "fdiv NaN _ = NaN"
| "fdiv _ NaN = NaN"
| "fdiv (Fin x) PosInf = Fin 0"
| "fdiv (Fin x) NegInf = Fin 0"
| "fdiv PosInf (Fin y) = (if 0 \<le> y then PosInf else NegInf)"
| "fdiv NegInf (Fin y) = (if 0 \<le> y then NegInf else PosInf)"
| "fdiv _ _ = NaN"

text \<open>
  The sum of a group is computed by pandas; the summation (its order, and whether it is
  compensated) is pandas' own, so it is a parameter \<open>fsum\<close> of the transform.
  \<open>naive_sum\<close> is the summation from left to right, every addition rounded.  For one or
  two values every order of summation gives its result.
\<close>

definition naive_sum :: "float64 list \<Rightarrow> float64" where
  "naive_sum vs = foldl fadd (Fin 0) vs"

text \<open>
  A summation is accurate to \<open>\<epsilon>\<close> on lists of at most \<open>n\<close> values when, for values that
  are 0 or at least the smallest normal number \<open>2^-1022\<close> and whose sum stays below the
  overflow threshold, its result is a finite number within the relative error \<open>\<epsilon>\<close> of
  the exact sum.
\<close>

definition accurate_sum :: "nat \<Rightarrow> real \<Rightarrow> (float64 list \<Rightarrow> float64) \<Rightarrow> bool" where
  "accurate_sum n \<epsilon> fsum =
     (\<forall>vs. length vs \<le> n \<and> (\<forall>v \<in> set vs. v = 0 \<or> 2 powr (- 1022) \<le> v)
            \<and> sum_list vs * (1 + \<epsilon>) < overflow_threshold
        \<longrightarrow> (\<exists>t. fsum (map Fin vs) = Fin t \<and> \<bar>t - sum_list vs\<bar> \<le> \<epsilon> * sum_list vs))"

text \<open>
  Lines 209-214 on the aggregated table \<open>grouped\<close> of line 208, a list of area, measure
  and float64 value: the total of every area (\<^verbatim>\<open>groupby('Reference area').sum()\<close>, which
  skips NaN), the merge on the area, and the quotient of value and total.
  \<^verbatim>\<open>
    total = grouped.groupby('Reference area', as_index=False)['OBS_VALUE'].sum()
    total = total.rename(columns={'OBS_VALUE': 'Total'})
    grouped = grouped.merge(total, on='Reference area')
    grouped['Proportion'] = grouped['OBS_VALUE'] / grouped['Total']
  \<close>
\<close>

record proportion_f64 =
  f_Reference_area :: string
  f_Measure :: string
  f_OBS_VALUE :: float64
  f_Total :: float64
  f_Proportion :: float64

definition proportion_float64 ::
  "(float64 list \<Rightarrow> float64) \<Rightarrow> ((string \<times> string) \<times> float64) list \<Rightarrow> proportion_f64 list" where
  "proportion_float64 fsum grouped =
     (let total =
            map (\<lambda>a. (a, fsum [v \<leftarrow> map snd [g \<leftarrow> grouped. fst (fst g) = a]. v \<noteq> NaN]))
              (sort (remdups (map (\<lambda>g. fst (fst g)) grouped)));
          merged = merge_on (\<lambda>g. fst (fst g)) fst grouped total
      in map (\<lambda>(g, t).
            \<lparr>f_Reference_area = fst (fst g), f_Measure = snd (fst g), f_OBS_VALUE = snd g,
             f_Total = snd t, f_Proportion = fdiv (snd g) (snd t)\<rparr>) merged)"

text \<open>The total of an area as the transform computes it.\<close>

definition float64_total :: "(float64 list \<Rightarrow> float64) \<Rightarrow> ((string \<times> string) \<times> float64) list \<Rightarrow> string \<Rightarrow> float64" where
  "float64_total fsum grouped a = fsum [v \<leftarrow> map snd [g \<leftarrow> grouped. fst (fst g) = a]. v \<noteq> NaN]"

text \<open>The number a finite float64 holds.\<close>

definition fin_value :: "float64 \<Rightarrow> real" where
  "fin_value v = (case v of Fin x \<Rightarrow> x | _ \<Rightarrow> 0)"


section \<open>Greenhouse gas: percent change and pivot\<close>




text \<open>
  A frame in wide form: the row labels, the column labels and the cells row by row; a
  cell that holds NaN is \<open>None\<close>.
\<close>

record ('i, 'c) wide_frame =
  w_index :: "'i list"
  w_columns :: "'c list"
  w_values :: "real option list list"

datatype pandas_error = ValueError

text \<open>
  \<^verbatim>\<open>long.pivot(index=..., columns=..., values=...)\<close> on a frame of key and value, the key
  being the pair of index and column label.  The labels of the result are the distinct
  labels in ascending order; a combination the long frame does not hold is NaN.  pandas
  raises \<^verbatim>\<open>ValueError\<close> when a combination occurs twice.
\<close>

definition pivot ::
  "(('i::linorder \<times> 'c::linorder) \<times> real) list \<Rightarrow> pandas_error + ('i, 'c) wide_frame" where
  "pivot long =
     (if \<not> distinct (map fst long) then Inl ValueError
      else
        let index = sort (remdups (map (\<lambda>g. fst (fst g)) long));
            columns = sort (remdups (map (\<lambda>g. snd (fst g)) long))
        in Inr \<lparr>w_index = index, w_columns = columns,
                w_values = map (\<lambda>i. map (\<lambda>c. map_of long (i, c)) columns) index\<rparr>)"

text \<open>\<^verbatim>\<open>frame.fillna(x)\<close>: every NaN cell becomes \<open>x\<close>.\<close>

definition fillna :: "real \<Rightarrow> ('i, 'c) wide_frame \<Rightarrow> ('i, 'c) wide_frame" where
  "fillna x w =
     w\<lparr>w_values := map (map (\<lambda>v. case v of None \<Rightarrow> Some x | Some y \<Rightarrow> Some y)) (w_values w)\<rparr>"

text \<open>The cells of a wide frame, each with its row and column label, row by row.\<close>

definition wide_cells :: "('i, 'c) wide_frame \<Rightarrow> (('i \<times> 'c) \<times> real option) list" where
  "wide_cells w =
     concat (map (\<lambda>(i, row). map (\<lambda>(c, v). ((i, c), v)) (zip (w_columns w) row))
       (zip (w_index w) (w_values w)))"

text \<open>
  Back to long form: the cells that hold a number, with their labels (what
  \<^verbatim>\<open>stack\<close> or \<^verbatim>\<open>melt\<close> followed by \<^verbatim>\<open>dropna\<close> lists).  The source has no such step; the
  definition reads a wide frame back for the round trip.
\<close>

definition unpivot :: "('i, 'c) wide_frame \<Rightarrow> (('i \<times> 'c) \<times> real) list" where
  "unpivot w =
     concat (map (\<lambda>(k, v). case v of None \<Rightarrow> [] | Some x \<Rightarrow> [(k, x)]) (wide_cells w))"

text \<open>
  \<^verbatim>\<open>kpi_and_line_tab\<close>, lines 120-125: the frame of the line plot.
  \<^verbatim>\<open>
    df_plot = (df_filtered.groupby(["TIME_PERIOD", "MEASURE"])["OBS_VALUE"].sum()
               .reset_index()
               .pivot(index="TIME_PERIOD", columns="MEASURE", values="OBS_VALUE"))
  \<close>
\<close>

definition ghg_grouped :: "ghg_obs list \<Rightarrow> ((int \<times> string) \<times> real) list" where
  "ghg_grouped df_filtered =
     groupby_sum (\<lambda>r. map_option (\<lambda>t. (t, g_MEASURE r)) (g_TIME_PERIOD r)) g_OBS_VALUE
       df_filtered"

definition df_plot :: "ghg_obs list \<Rightarrow> pandas_error + (int, string) wide_frame" where
  "df_plot df_filtered = pivot (ghg_grouped df_filtered)"


section \<open>Land use: pivot\<close>

text \<open>
  \<^verbatim>\<open>create_stacked_area_chart\<close>, lines 98-99 (the function returns an empty figure before
  them when the frame is empty):
  \<^verbatim>\<open>
    area_data = df.groupby(['Time', 'Types of Land'])['Actual area (ha)'].sum().reset_index()
    area_data = area_data.pivot(index='Time', columns='Types of Land',
                                values='Actual area (ha)').fillna(0)
  \<close>
\<close>

definition land_grouped :: "land_obs list \<Rightarrow> ((int \<times> string) \<times> real) list" where
  "land_grouped df =
     groupby_sum (\<lambda>r. map_option (\<lambda>t. (t, l_Types_of_Land r)) (l_Time r)) l_Actual_area df"

definition area_data :: "land_obs list \<Rightarrow> pandas_error + (int, string) wide_frame" where
  "area_data df =
     (case pivot (land_grouped df) of Inl e \<Rightarrow> Inl e | Inr w \<Rightarrow> Inr (fillna 0 w))"


section \<open>Erosion: sums and means\<close>

text \<open>
  \<^verbatim>\<open>create_time_series_chart\<close>, line 94:
  \<^verbatim>\<open>
    total_data = df[df['EROSION_LEVEL'] == '_T'].groupby(['Country', 'Time',
                     'Types of Erosion'])['OBS_VALUE'].sum().reset_index()
  \<close>
\<close>

definition series_key :: "erosion_obs \<Rightarrow> (string \<times> int \<times> string) option" where
  "series_key r = map_option (\<lambda>t. (e_Country r, t, e_Types_of_Erosion r)) (e_Time r)"

definition time_series_total_data :: "erosion_obs list \<Rightarrow> ((string \<times> int \<times> string) \<times> real) list" where
  "time_series_total_data df =
     groupby_sum series_key e_OBS_VALUE [r \<leftarrow> df. e_EROSION_LEVEL r = ''_T'']"

text \<open>
  \<^verbatim>\<open>create_time_series_chart\<close> with its guard: an empty frame gives an empty figure, which
  has no table (\<open>None\<close>).
\<close>

definition create_time_series_chart ::
  "erosion_obs list \<Rightarrow> ((string \<times> int \<times> string) \<times> real) list option" where
  "create_time_series_chart df = (if df = [] then None else Some (time_series_total_data df))"

text \<open>
  \<^verbatim>\<open>create_erosion_comparison_chart\<close>, line 122:
  \<^verbatim>\<open>
    total_data = df[df['EROSION_LEVEL'] == '_T'].groupby(['Country',
                     'Types of Erosion'])['OBS_VALUE'].mean().reset_index()
  \<close>
\<close>

definition comparison_total_data :: "erosion_obs list \<Rightarrow> ((string \<times> string) \<times> float64) list" where
  "comparison_total_data df =
     groupby_mean (\<lambda>r. Some (e_Country r, e_Types_of_Erosion r)) e_OBS_VALUE
       [r \<leftarrow> df. e_EROSION_LEVEL r = ''_T'']"

text \<open>
  \<^verbatim>\<open>main\<close>, lines 270-271:
  \<^verbatim>\<open>
    avg_erosion = filtered_df[filtered_df['EROSION_LEVEL'] == '_T']['OBS_VALUE'].mean() \
                  if not filtered_df.empty else 0
    st.metric("Average Total Erosion", f"{avg_erosion:.1f}%")
  \<close>
\<close>

definition avg_erosion :: "erosion_obs list \<Rightarrow> float64" where
  "avg_erosion filtered_df =
     (if filtered_df \<noteq> []
      then series_mean (map e_OBS_VALUE [r \<leftarrow> filtered_df. e_EROSION_LEVEL r = ''_T''])
      else Fin 0)"

definition avg_erosion_metric :: "(real \<Rightarrow> string) \<Rightarrow> erosion_obs list \<Rightarrow> string" where
  "avg_erosion_metric fmt filtered_df = format_1f fmt (avg_erosion filtered_df) @ ''%''"

section \<open>Rankings\<close>

text \<open>
  The two rankings are the last two steps of
  \<^verbatim>\<open>country_avg.sort_values('OBS_VALUE', ascending=True).tail(15)\<close>
  (\<^verbatim>\<open>create_country_ranking_chart\<close>, line 181, on the frame of the countries' means of line
  180) and of
  \<^verbatim>\<open>df.groupby('Country')['Actual area (ha)'].sum().sort_values(ascending=True).tail(15)\<close>
  (\<^verbatim>\<open>create_top_countries_chart\<close>, line 269, on the series of the countries' sums).  The
  aggregated table is the argument: a list of country and float64 value, whatever the
  aggregation computed.
\<close>

text \<open>
  The position of a float64 in an ascending \<^verbatim>\<open>sort_values\<close>: minus infinity, the numbers
  in their order, plus infinity, and NaN last (\<^verbatim>\<open>na_position='last'\<close>).
\<close>

definition float64_rank :: "float64 \<Rightarrow> nat \<times> real" where
  "float64_rank v =
     (case v of NegInf \<Rightarrow> (0, 0) | Fin x \<Rightarrow> (1, x) | PosInf \<Rightarrow> (2, 0) | NaN \<Rightarrow> (3, 0))"

text \<open>
  What \<^verbatim>\<open>sort_values(ascending=True)\<close> promises of its result: the rows of the frame,
  each as often as it occurs, in ascending order of the key.  The sorting algorithm is
  pandas' (the default \<^verbatim>\<open>quicksort\<close>, which is not stable), so the sort is a parameter of
  the rankings and only this promise is used.
\<close>

definition ascending_sort :: "('r \<Rightarrow> 'k::linorder) \<Rightarrow> ('r list \<Rightarrow> 'r list) \<Rightarrow> bool" where
  "ascending_sort key srt = (\<forall>xs. mset (srt xs) = mset xs \<and> sorted (map key (srt xs)))"

text \<open>\<^verbatim>\<open>frame.tail(n)\<close>: the last \<open>n\<close> rows, all of them when the frame has fewer.\<close>

definition tail :: "nat \<Rightarrow> 'a list \<Rightarrow> 'a list" where
  "tail n xs = drop (length xs - n) xs"

text \<open>\<^verbatim>\<open>table.sort_values(col, ascending=True).tail(n)\<close>.\<close>

definition top_n :: "('r list \<Rightarrow> 'r list) \<Rightarrow> nat \<Rightarrow> 'r list \<Rightarrow> 'r list" where
  "top_n sort_values n table = tail n (sort_values table)"

text \<open>Line 181 of \<^verbatim>\<open>erosion_charts.py\<close>, on the frame of line 180.\<close>

definition country_avg ::
  "((string \<times> float64) list \<Rightarrow> (string \<times> float64) list) \<Rightarrow> (string \<times> float64) list
     \<Rightarrow> (string \<times> float64) list" where
  "country_avg sort_values means = top_n sort_values 15 means"

text \<open>Line 269 of \<^verbatim>\<open>land_charts.py\<close>, on the series of the sums.\<close>

definition top_countries ::
  "((string \<times> float64) list \<Rightarrow> (string \<times> float64) list) \<Rightarrow> (string \<times> float64) list
     \<Rightarrow> (string \<times> float64) list" where
  "top_countries sort_values country_sums = top_n sort_values 15 country_sums"


section \<open>Example frames\<close>

definition erosion_example :: "erosion_obs list" where
  "erosion_example =
     [\<lparr>e_Country = ''Chile'', e_Time = Some 2000, e_Types_of_Erosion = ''Water'',
        e_EROSION_LEVEL = ''_T'', e_OBS_VALUE = Some 10\<rparr>,
      \<lparr>e_Country = ''Chile'', e_Time = Some 2010, e_Types_of_Erosion = ''Water'',
        e_EROSION_LEVEL = ''_T'', e_OBS_VALUE = Some 12\<rparr>,
      \<lparr>e_Country = ''Spain'', e_Time = Some 2020, e_Types_of_Erosion = ''Wind'',
        e_EROSION_LEVEL = ''LW'', e_OBS_VALUE = None\<rparr>]"

definition nutrient_example :: "nutrient_obs list" where
  "nutrient_example =
     [\<lparr>n_Reference_area = ''A'', n_REF_AREA = ''AAA'', n_TIME_PERIOD = Some 2015,
        n_Measure = ''X'', n_Nutrients = ''Nitrogen'', n_OBS_VALUE = Some 10\<rparr>,
      \<lparr>n_Reference_area = ''A'', n_REF_AREA = ''AAA'', n_TIME_PERIOD = Some 2015,
        n_Measure = ''Y'', n_Nutrients = ''Nitrogen'', n_OBS_VALUE = Some 30\<rparr>,
      \<lparr>n_Reference_area = ''B'', n_REF_AREA = ''BBB'', n_TIME_PERIOD = Some 2015,
        n_Measure = ''X'', n_Nutrients = ''Nitrogen'', n_OBS_VALUE = Some 0\<rparr>]"



definition land_example :: "land_obs list" where
  "land_example =
     [\<lparr>l_Country = ''Chile'', l_Time = Some 2000, l_Types_of_Land = ''Arable'',
        l_Actual_area = Some 5\<rparr>,
      \<lparr>l_Country = ''Spain'', l_Time = Some 2001, l_Types_of_Land = ''Pasture'',
        l_Actual_area = Some 7\<rparr>,
      \<lparr>l_Country = ''Benin'', l_Time = Some 2001, l_Types_of_Land = ''Arable'',
        l_Actual_area = Some 0\<rparr>]"

definition erosion_missing_example :: "erosion_obs list" where
  "erosion_missing_example =
     [\<lparr>e_Country = ''Spain'', e_Time = Some 2020, e_Types_of_Erosion = ''Wind'',
        e_EROSION_LEVEL = ''_T'', e_OBS_VALUE = None\<rparr>]"

definition erosion_ranking_example :: "erosion_obs list" where
  "erosion_ranking_example =
     [\<lparr>e_Country = ''Chile'', e_Time = Some 2000, e_Types_of_Erosion = ''Water'',
        e_EROSION_LEVEL = ''_T'', e_OBS_VALUE = Some 3\<rparr>,
      \<lparr>e_Country = ''Benin'', e_Time = Some 2000, e_Types_of_Erosion = ''Water'',
        e_EROSION_LEVEL = ''_T'', e_OBS_VALUE = Some 1\<rparr>,
      \<lparr>e_Country = ''Spain'', e_Time = Some 2000, e_Types_of_Erosion = ''Water'',
        e_EROSION_LEVEL = ''_T'', e_OBS_VALUE = Some 2\<rparr>]"


text \<open>
  Aggregated tables of float64 values: the scenario of area A with 10 and 30 and area B
  with 0, and an area whose two values are \<open>2^1023\<close>, a finite float64.
\<close>

definition float64_example :: "((string \<times> string) \<times> float64) list" where
  "float64_example =
     [((''A'', ''X''), Fin 10), ((''A'', ''Y''), Fin 30), ((''B'', ''X''), Fin 0)]"

definition float64_overflow_example :: "((string \<times> string) \<times> float64) list" where
  "float64_overflow_example =
     [((''A'', ''X''), Fin (2 ^ 1023)), ((''A'', ''Y''), Fin (2 ^ 1023))]"


section \<open>Properties of the filters\<close>

lemma ge_le_between: "(ge_na t lo \<and> le_na t hi) = year_between t lo hi"
  by (cases t) (simp_all add: ge_na_def le_na_def year_between_def)

lemma erosion_time_filter_last:
  "erosion_filter_data df cs (Some (lo, hi)) ets sls =
     [r \<leftarrow> erosion_filter_data df cs None ets sls. year_between (e_Time r) lo hi]"
  by (auto simp add: erosion_filter_data_def Let_def ge_le_between intro!: filter_cong)

lemma land_time_filter_last:
  "land_filter_data df cs (Some (lo, hi)) lts =
     [r \<leftarrow> land_filter_data df cs None lts. year_between (l_Time r) lo hi]"
  by (auto simp add: land_filter_data_def Let_def ge_le_between intro!: filter_cong)

lemma nutrient_time_filter_last:
  "filtered_data data areas (lo, hi) =
     [r \<leftarrow> (if ''All areas'' \<notin> set areas
            then [r \<leftarrow> data. n_Reference_area r \<in> set areas] else data).
        year_between (n_TIME_PERIOD r) lo hi]"
  by (auto simp add: filtered_data_def Let_def ge_le_between intro!: filter_cong)

lemma year_between_point: "year_between t y y = (t = Some y)"
  by (cases t) (auto simp add: year_between_def)

lemma filter_nothing: "(\<And>x. x \<in> set xs \<Longrightarrow> \<not> P x) \<Longrightarrow> filter P xs = []"
  by (induction xs) simp_all

lemma erosion_filter_subset: "set (erosion_filter_data df cs years ets sls) \<subseteq> set df"
  by (auto simp add: erosion_filter_data_def Let_def split: option.splits)

lemma land_filter_subset: "set (land_filter_data df cs years lts) \<subseteq> set df"
  by (auto simp add: land_filter_data_def Let_def split: option.splits)

lemma year_between_outside:
  "year_between t dlo dhi \<Longrightarrow> dhi < lo \<or> hi < dlo \<Longrightarrow> \<not> year_between t lo hi"
  by (cases t) (auto simp add: year_between_def)

lemma filter_outside:
  assumes "set xs \<subseteq> set df"
    and "\<forall>r \<in> set df. year_between (time r) dlo dhi"
    and "dhi < lo \<or> hi < dlo"
  shows "[r \<leftarrow> xs. year_between (time r) lo hi] = []"
proof (rule filter_nothing)
  fix x assume "x \<in> set xs"
  with assms(1,2) have "year_between (time x) dlo dhi" by blast
  with assms(3) show "\<not> year_between (time x) lo hi" by (rule year_between_outside [rotated])
qed

text \<open>
  Claim C7.  The year filter keeps exactly the rows whose year lies in the closed interval
  from the lower to the upper bound, both ends included, among the rows the other filters
  keep: in the erosion dashboard, the land dashboard and the nutrients dashboard.  A row
  with a missing year is not kept.  With both bounds 2010 the rows kept are those of the
  year 2010.  When every year of the data set lies in an interval that does not meet the
  requested one (data of 2000 to 2020, request 2030 to 2035), the result is the empty
  frame; the filters have no error result.
\<close>

theorem time_filter_inclusive:
  "erosion_filter_data df cs (Some (lo, hi)) ets sls =
     [r \<leftarrow> erosion_filter_data df cs None ets sls. year_between (e_Time r) lo hi]
   \<and> land_filter_data ldf cs (Some (lo, hi)) lts =
     [r \<leftarrow> land_filter_data ldf cs None lts. year_between (l_Time r) lo hi]
   \<and> filtered_data data areas (lo, hi) =
     [r \<leftarrow> (if ''All areas'' \<notin> set areas
            then [r \<leftarrow> data. n_Reference_area r \<in> set areas] else data).
        year_between (n_TIME_PERIOD r) lo hi]
   \<and> (\<forall>v. year_between (Some v) lo hi = (lo \<le> v \<and> v \<le> hi))
   \<and> \<not> year_between None lo hi
   \<and> erosion_filter_data df [] (Some (2010, 2010)) [] [] = [r \<leftarrow> df. e_Time r = Some 2010]
   \<and> land_filter_data ldf [] (Some (2010, 2010)) [] = [r \<leftarrow> ldf. l_Time r = Some 2010]
   \<and> filtered_data data [''All areas''] (2010, 2010) =
       [r \<leftarrow> data. n_TIME_PERIOD r = Some 2010]
   \<and> ((\<forall>r \<in> set df. year_between (e_Time r) dlo dhi) \<and> (dhi < lo \<or> hi < dlo) \<longrightarrow>
        erosion_filter_data df cs (Some (lo, hi)) ets sls = [])
   \<and> ((\<forall>r \<in> set ldf. year_between (l_Time r) dlo dhi) \<and> (dhi < lo \<or> hi < dlo) \<longrightarrow>
        land_filter_data ldf cs (Some (lo, hi)) lts = [])
   \<and> ((\<forall>r \<in> set data. year_between (n_TIME_PERIOD r) dlo dhi) \<and> (dhi < lo \<or> hi < dlo) \<longrightarrow>
        filtered_data data areas (lo, hi) = [])"
proof -
  have point_e: "erosion_filter_data df [] (Some (2010, 2010)) [] [] =
      [r \<leftarrow> df. e_Time r = Some 2010]"
    by (simp add: erosion_filter_data_def ge_le_between year_between_point)
  have point_l: "land_filter_data ldf [] (Some (2010, 2010)) [] = [r \<leftarrow> ldf. l_Time r = Some 2010]"
    by (simp add: land_filter_data_def ge_le_between year_between_point)
  have point_n: "filtered_data data [''All areas''] (2010, 2010) =
      [r \<leftarrow> data. n_TIME_PERIOD r = Some 2010]"
    by (simp add: filtered_data_def ge_le_between year_between_point)
  have out_e: "erosion_filter_data df cs (Some (lo, hi)) ets sls = []"
    if "\<forall>r \<in> set df. year_between (e_Time r) dlo dhi" and "dhi < lo \<or> hi < dlo"
    unfolding erosion_time_filter_last
    using erosion_filter_subset that by (rule filter_outside)
  have out_l: "land_filter_data ldf cs (Some (lo, hi)) lts = []"
    if "\<forall>r \<in> set ldf. year_between (l_Time r) dlo dhi" and "dhi < lo \<or> hi < dlo"
    unfolding land_time_filter_last
    using land_filter_subset that by (rule filter_outside)
  have out_n: "filtered_data data areas (lo, hi) = []"
    if "\<forall>r \<in> set data. year_between (n_TIME_PERIOD r) dlo dhi" and "dhi < lo \<or> hi < dlo"
  proof -
    have "set (if ''All areas'' \<notin> set areas
            then [r \<leftarrow> data. n_Reference_area r \<in> set areas] else data) \<subseteq> set data"
      by auto
    then show ?thesis
      unfolding nutrient_time_filter_last using that by (rule filter_outside)
  qed
  have "\<forall>v. year_between (Some v) lo hi = (lo \<le> v \<and> v \<le> hi)"
    by (simp add: year_between_def)
  moreover have "\<not> year_between None lo hi"
    by (simp add: year_between_def)
  ultimately show ?thesis
    using point_e point_l point_n out_e out_l out_n
      erosion_time_filter_last [of df cs lo hi ets sls]
      land_time_filter_last [of ldf cs lo hi lts]
      nutrient_time_filter_last [of data areas lo hi]
    by blast
qed

theorem time_filter_inclusive_witness:
  "erosion_filter_data erosion_example [] (Some (2030, 2035)) [] [] = []
   \<and> erosion_filter_data erosion_example [] (Some (2010, 2010)) [] [] =
       [\<lparr>e_Country = ''Chile'', e_Time = Some 2010, e_Types_of_Erosion = ''Water'',
         e_EROSION_LEVEL = ''_T'', e_OBS_VALUE = Some 12\<rparr>]
   \<and> land_filter_data land_example [] (Some (1990, 1999)) [] = []
   \<and> filtered_data nutrient_example [''A''] (2016, 2020) = []"
proof -
  have span_e: "\<forall>r \<in> set erosion_example. year_between (e_Time r) 2000 2020"
    by (simp add: erosion_example_def year_between_def)
  have span_l: "\<forall>r \<in> set land_example. year_between (l_Time r) 2000 2001"
    by (simp add: land_example_def year_between_def)
  have span_n: "\<forall>r \<in> set nutrient_example. year_between (n_TIME_PERIOD r) 2015 2015"
    by (simp add: nutrient_example_def year_between_def)
  have after: "(2020::int) < 2030 \<or> (2035::int) < 2000" by simp
  have before: "(2001::int) < 1990 \<or> (1999::int) < 2000" by simp
  have after_n: "(2015::int) < 2016 \<or> (2020::int) < 2015" by simp
  from time_filter_inclusive
    [of erosion_example "[]" 2030 2035 "[]" "[]" _ _ _ _ 2000 2020] span_e after
  have outside: "erosion_filter_data erosion_example [] (Some (2030, 2035)) [] [] = []"
    by blast
  from time_filter_inclusive [of _ "[]" 1990 1999 _ _ land_example "[]" _ _ 2000 2001]
    span_l before
  have outside_l: "land_filter_data land_example [] (Some (1990, 1999)) [] = []"
    by blast
  from time_filter_inclusive [of _ _ 2016 2020 _ _ _ _ nutrient_example "[''A'']" 2015 2015]
    span_n after_n
  have outside_n: "filtered_data nutrient_example [''A''] (2016, 2020) = []"
    by blast
  have "erosion_filter_data erosion_example [] (Some (2010, 2010)) [] [] =
       [r \<leftarrow> erosion_example. e_Time r = Some 2010]"
    using time_filter_inclusive [of erosion_example] by blast
  then have point: "erosion_filter_data erosion_example [] (Some (2010, 2010)) [] [] =
       [\<lparr>e_Country = ''Chile'', e_Time = Some 2010, e_Types_of_Erosion = ''Water'',
         e_EROSION_LEVEL = ''_T'', e_OBS_VALUE = Some 12\<rparr>]"
    by (simp add: erosion_example_def)
  from outside outside_l outside_n point show ?thesis by simp
qed

text \<open>
  Claim C9.  In the nutrients dashboard, when the selected areas contain the sentinel
  'All areas', the filtered view is the view of the year filter alone: the area filter
  is not applied.
\<close>

theorem all_areas_sentinel_no_entity_filter:
  "''All areas'' \<in> set selected_areas \<Longrightarrow>
     filtered_data data selected_areas (lo, hi) =
       [r \<leftarrow> data. year_between (n_TIME_PERIOD r) lo hi]"
  by (simp add: nutrient_time_filter_last)

theorem all_areas_sentinel_no_entity_filter_witness:
  "filtered_data nutrient_example [''All areas'', ''Japan''] (2015, 2015) =
     [r \<leftarrow> nutrient_example. year_between (n_TIME_PERIOD r) 2015 2015]
   \<and> length (filtered_data nutrient_example [''All areas'', ''Japan''] (2015, 2015)) = 3"
proof -
  have sel: "''All areas'' \<in> set [''All areas'', ''Japan'']" by simp
  from all_areas_sentinel_no_entity_filter [OF sel, of nutrient_example 2015 2015]
  show ?thesis
    by (simp add: nutrient_example_def year_between_def)
qed

text \<open>
  Claim C10.  In the nutrients dashboard an empty area selection does not contain the
  sentinel, so the area filter keeps no row and the filtered view is empty.  In the erosion
  and land dashboards an empty country selection is skipped by its guard: the result is
  what the year and category filters keep of the whole frame, and with no other filter set
  it is the whole frame.
\<close>

theorem empty_selection_semantics:
  "filtered_data data [] year_range = []
   \<and> erosion_filter_data df [] years ets sls =
       [r \<leftarrow> df.
          (case years of None \<Rightarrow> True | Some ys \<Rightarrow> year_between (e_Time r) (fst ys) (snd ys))
          \<and> (ets = [] \<or> e_Types_of_Erosion r \<in> set ets)
          \<and> (sls = [] \<or> e_EROSION_LEVEL r \<in> set sls)]
   \<and> erosion_filter_data df [] None [] [] = df
   \<and> land_filter_data ldf [] years lts =
       [r \<leftarrow> ldf.
          (case years of None \<Rightarrow> True | Some ys \<Rightarrow> year_between (l_Time r) (fst ys) (snd ys))
          \<and> (lts = [] \<or> l_Types_of_Land r \<in> set lts)]
   \<and> land_filter_data ldf [] None [] = ldf"
  by (auto simp add: filtered_data_def erosion_filter_data_def land_filter_data_def Let_def
      ge_le_between split: option.splits intro!: filter_cong)

section \<open>Properties of grouping\<close>

lemma dropna_Some [simp]: "dropna (map (\<lambda>x. Some (f x)) xs) = map f xs"
  by (induction xs) (simp_all add: dropna_def)

lemma dropna_Nil [simp]: "dropna [] = []"
  by (simp add: dropna_def)

lemma dropna_Cons:
  "dropna (v # vs) = (case v of None \<Rightarrow> dropna vs | Some x \<Rightarrow> x # dropna vs)"
  by (simp add: dropna_def split: option.splits)

lemma set_dropna: "set (dropna vs) = {x. Some x \<in> set vs}"
  by (induction vs) (auto simp add: dropna_def split: option.splits)

lemma distinct_group_keys [simp]: "distinct (group_keys key df)"
  by (simp add: group_keys_def)

lemma sorted_group_keys [simp]: "sorted (group_keys key df)"
  by (simp add: group_keys_def)

lemma set_group_keys: "set (group_keys key df) = {k. \<exists>r \<in> set df. key r = Some k}"
  by (force simp add: group_keys_def set_dropna image_iff)

lemma group_keys_Nil [simp]: "group_keys key [] = []"
  by (simp add: group_keys_def)

lemma filter_keyed_unique:
  "distinct ks \<Longrightarrow> a \<in> set ks \<Longrightarrow> [t \<leftarrow> map (\<lambda>k. (k, f k)) ks. fst t = a] = [(a, f a)]"
  by (induction ks) (auto simp add: filter_empty_conv)

lemma sum_list_divide: "(\<Sum>x\<leftarrow>xs. f x / (c::real)) = (\<Sum>x\<leftarrow>xs. f x) / c"
  by (induction xs) (simp_all add: add_divide_distrib)


section \<open>Properties of the proportions\<close>

lemma merge_total:
  "merge_on (\<lambda>g. fst (fst g)) fst grouped
      (groupby_sum (\<lambda>g. Some (fst (fst g))) (\<lambda>g. Some (snd g)) grouped) =
   map (\<lambda>g. (g, (fst (fst g), area_total grouped (fst (fst g))))) grouped"
proof -
  let ?total = "groupby_sum (\<lambda>g. Some (fst (fst g))) (\<lambda>g. Some (snd g)) grouped"
  have one: "[t \<leftarrow> ?total. fst t = fst (fst g)] = [(fst (fst g), area_total grouped (fst (fst g)))]"
    if "g \<in> set grouped" for g
  proof -
    from that have "fst (fst g) \<in> set (group_keys (\<lambda>g. Some (fst (fst g))) grouped)"
      by (auto simp add: set_group_keys)
    then show ?thesis
      by (simp add: groupby_sum_def filter_keyed_unique series_sum_def group_rows_def
          area_total_def)
  qed
  have "merge_on (\<lambda>g. fst (fst g)) fst grouped ?total =
      concat (map (\<lambda>g. [(g, (fst (fst g), area_total grouped (fst (fst g))))]) grouped)"
    unfolding merge_on_def using one by (intro arg_cong [where f = concat] map_cong) simp_all
  then show ?thesis by simp
qed

lemma render_hori_stacked_plot_rows:
  "render_hori_stacked_plot data =
     map (proportion_of (groupby_sum (\<lambda>r. Some (n_Reference_area r, n_Measure r)) n_OBS_VALUE data))
       (groupby_sum (\<lambda>r. Some (n_Reference_area r, n_Measure r)) n_OBS_VALUE data)"
  by (simp add: render_hori_stacked_plot_def Let_def merge_total proportion_of_def)

lemma nutrient_example_proportions:
  "render_hori_stacked_plot nutrient_example =
     [\<lparr>p_Reference_area = ''A'', p_Measure = ''X'', p_OBS_VALUE = 10, p_Total = 40,
        p_Proportion = Fin (1 / 4)\<rparr>,
      \<lparr>p_Reference_area = ''A'', p_Measure = ''Y'', p_OBS_VALUE = 30, p_Total = 40,
        p_Proportion = Fin (3 / 4)\<rparr>,
      \<lparr>p_Reference_area = ''B'', p_Measure = ''X'', p_OBS_VALUE = 0, p_Total = 0,
        p_Proportion = NaN\<rparr>]"
  by (simp add: render_hori_stacked_plot_def nutrient_example_def groupby_sum_def
      group_keys_def group_rows_def series_sum_def dropna_def merge_on_def truediv_def)

text \<open>
  Claim C2, as the code has it.  No division-by-zero marker exists: when the total of an
  area is 0 the proportion of a row is what float64 division gives, NaN for a value of 0
  and an infinity of the value's sign otherwise, and it is never a finite number (so never
  0).  The labels of \<^verbatim>\<open>draw_proportion_bar\<close> for a total of 0 are the printed special
  values followed by a percent sign, \<^verbatim>\<open>nan%\<close> for a value of 0.
\<close>

theorem zero_total_gives_special_value:
  "(row \<in> set (render_hori_stacked_plot data) \<and> p_Total row = 0 \<longrightarrow>
      p_Proportion row = zero_division (p_OBS_VALUE row) \<and> (\<forall>x. p_Proportion row \<noteq> Fin x))
   \<and> (value1 + value2 = 0 \<longrightarrow>
        draw_proportion_bar fmt value1 value2 =
          (format_1f fmt (zero_division value1) @ ''%'',
           format_1f fmt (zero_division value2) @ ''%''))
   \<and> format_1f fmt (zero_division 0) = ''nan''"
proof -
  have "p_Proportion row = zero_division (p_OBS_VALUE row) \<and> (\<forall>x. p_Proportion row \<noteq> Fin x)"
    if "row \<in> set (render_hori_stacked_plot data)" and "p_Total row = 0"
    using that
    by (auto simp add: render_hori_stacked_plot_rows proportion_of_def truediv_def
        zero_division_def)
  moreover have "draw_proportion_bar fmt value1 value2 =
          (format_1f fmt (zero_division value1) @ ''%'',
           format_1f fmt (zero_division value2) @ ''%'')"
    if "value1 + value2 = 0"
    using that
    by (simp add: draw_proportion_bar_def Let_def truediv_def zero_division_def
        times_const_def)
  moreover have "format_1f fmt (zero_division 0) = ''nan''"
    by (simp add: format_1f_def zero_division_def)
  ultimately show ?thesis by blast
qed

theorem zero_total_gives_special_value_witness:
  "p_Proportion \<lparr>p_Reference_area = ''B'', p_Measure = ''X'', p_OBS_VALUE = 0, p_Total = 0,
        p_Proportion = NaN\<rparr> = zero_division 0
   \<and> draw_proportion_bar (\<lambda>x. ''0.0'') 5 (- 5) = (''inf%'', ''-inf%'')"
proof -
  let ?row = "\<lparr>p_Reference_area = ''B'', p_Measure = ''X'', p_OBS_VALUE = 0, p_Total = 0,
        p_Proportion = NaN\<rparr>"
  have mem: "?row \<in> set (render_hori_stacked_plot nutrient_example)"
    by (simp add: nutrient_example_proportions)
  have z: "p_Total ?row = 0" by simp
  have s: "(5::real) + (- 5) = 0" by simp
  from zero_total_gives_special_value [of ?row nutrient_example 5 "- 5" "\<lambda>x. ''0.0''"] mem z s
  have "p_Proportion ?row = zero_division (p_OBS_VALUE ?row)"
    and "draw_proportion_bar (\<lambda>x. ''0.0'') 5 (- 5) =
          (format_1f (\<lambda>x. ''0.0'') (zero_division 5) @ ''%'',
           format_1f (\<lambda>x. ''0.0'') (zero_division (- 5)) @ ''%'')"
    by blast+
  then show ?thesis by (simp add: format_1f_def zero_division_def)
qed

text \<open>
  The scenario of the specification: area A with X 10 and Y 30, area B with X 0.  The
  proportion of B's row is NaN, and the labels drawn for B's rows are \<^verbatim>\<open>nan%\<close>, not a
  marker rendered as N/A.
\<close>

theorem zero_total_counterexample:
  "map p_Proportion (render_hori_stacked_plot nutrient_example) = [Fin (1 / 4), Fin (3 / 4), NaN]
   \<and> render_nitphos (\<lambda>x. ''0.0'') [r \<leftarrow> nutrient_example. n_Reference_area r = ''B''] =
       (''nan%'', ''nan%'')"
  by (simp add: nutrient_example_proportions)
    (simp add: nutrient_example_def render_nitphos_def draw_proportion_bar_def series_sum_def
      dropna_def Let_def truediv_def times_const_def format_1f_def)

section \<open>Properties of rounding and of the float64 proportions\<close>

lemma round_half_even_error: "\<bar>of_int (round_half_even r) - r\<bar> \<le> 1 / 2"
  unfolding round_half_even_def Let_def by (auto simp add: abs_le_iff)

lemma round_half_even_ge: "of_int m \<le> r \<Longrightarrow> m \<le> round_half_even r"
proof -
  assume "of_int m \<le> r"
  then have "m \<le> \<lfloor>r\<rfloor>" by (simp add: le_floor_iff)
  then show ?thesis unfolding round_half_even_def Let_def by auto
qed

lemma round_half_even_0 [simp]: "round_half_even 0 = 0"
  by (simp add: round_half_even_def)

lemma ulp_pos: "0 < ulp x"
  by (simp add: ulp_def)

lemma overflow_threshold_pos: "0 < overflow_threshold"
  by (simp add: overflow_threshold_def)

lemma round64_0 [simp]: "round64 0 = Fin 0"
  using overflow_threshold_pos by (simp add: round64_def)

lemma round64_finite:
  assumes "\<bar>x\<bar> < overflow_threshold"
  shows "round64 x = Fin (of_int (round_half_even (x / ulp x)) * ulp x)"
  using assms by (auto simp add: round64_def)

lemma round64_half_ulp:
  "\<bar>of_int (round_half_even (x / ulp x)) * ulp x - x\<bar> \<le> ulp x / 2"
proof -
  have "\<bar>of_int (round_half_even (x / ulp x)) * ulp x - x\<bar> =
      \<bar>of_int (round_half_even (x / ulp x)) - x / ulp x\<bar> * ulp x"
  proof -
    have "of_int (round_half_even (x / ulp x)) * ulp x - x =
        (of_int (round_half_even (x / ulp x)) - x / ulp x) * ulp x"
      using ulp_pos [of x] by (simp add: left_diff_distrib)
    then show ?thesis using ulp_pos [of x] by (simp add: abs_mult)
  qed
  also have "\<dots> \<le> 1 / 2 * ulp x"
    using round_half_even_error [of "x / ulp x"] ulp_pos [of x]
    by (intro mult_right_mono) simp_all
  finally show ?thesis by simp
qed

lemma exponent_of_normal:
  assumes "2 powr (- 1022) \<le> \<bar>x\<bar>"
  shows "exponent_of x = \<lfloor>log 2 \<bar>x\<bar>\<rfloor>" and "2 powr of_int (exponent_of x) \<le> \<bar>x\<bar>"
proof -
  have pos: "0 < \<bar>x\<bar>" using assms powr_gt_zero [of 2 "- 1022"] by linarith
  from assms pos have "- 1022 \<le> log 2 \<bar>x\<bar>"
    by (simp add: le_log_iff)
  then have "- 1022 \<le> \<lfloor>log 2 \<bar>x\<bar>\<rfloor>" by (simp add: le_floor_iff)
  then show e: "exponent_of x = \<lfloor>log 2 \<bar>x\<bar>\<rfloor>" by (simp add: exponent_of_def)
  have "of_int \<lfloor>log 2 \<bar>x\<bar>\<rfloor> \<le> log 2 \<bar>x\<bar>" by simp
  then have "2 powr of_int \<lfloor>log 2 \<bar>x\<bar>\<rfloor> \<le> 2 powr log 2 \<bar>x\<bar>"
    by (simp only: powr_le_cancel_iff) 
  also have "\<dots> = \<bar>x\<bar>" using pos by simp
  finally show "2 powr of_int (exponent_of x) \<le> \<bar>x\<bar>" by (simp add: e)
qed

lemma half_ulp: "ulp x / 2 = 2 powr of_int (exponent_of x) / 2 ^ 53"
proof -
  have "ulp x = 2 powr of_int (exponent_of x) / 2 powr 52"
    by (simp add: ulp_def powr_diff)
  then show ?thesis by (simp add: powr_numeral)
qed

lemma round64_normal:
  assumes "2 powr (- 1022) \<le> \<bar>x\<bar>" and "\<bar>x\<bar> < overflow_threshold"
  shows "\<exists>y. round64 x = Fin y \<and> \<bar>y - x\<bar> \<le> \<bar>x\<bar> / 2 ^ 53"
proof -
  let ?y = "of_int (round_half_even (x / ulp x)) * ulp x"
  have "\<bar>?y - x\<bar> \<le> ulp x / 2" by (rule round64_half_ulp)
  also have "\<dots> = 2 powr of_int (exponent_of x) / 2 ^ 53" by (rule half_ulp)
  also have "\<dots> \<le> \<bar>x\<bar> / 2 ^ 53"
    using exponent_of_normal(2) [OF assms(1)] by (simp add: divide_right_mono)
  finally have "\<bar>?y - x\<bar> \<le> \<bar>x\<bar> / 2 ^ 53" .
  with round64_finite [OF assms(2)] show ?thesis by blast
qed

lemma round64_accuracy:
  assumes "\<bar>x\<bar> < overflow_threshold"
  shows "\<exists>y. round64 x = Fin y \<and> \<bar>y - x\<bar> \<le> \<bar>x\<bar> / 2 ^ 53 + 2 powr (- 1075)"
proof (cases "2 powr (- 1022) \<le> \<bar>x\<bar>")
  case True
  from round64_normal [OF True assms] obtain y
    where "round64 x = Fin y" and "\<bar>y - x\<bar> \<le> \<bar>x\<bar> / 2 ^ 53" by blast
  moreover have "(0::real) \<le> 2 powr (- 1075)" by simp
  ultimately show ?thesis by (intro exI [where x = y]) linarith
next
  case False
  let ?y = "of_int (round_half_even (x / ulp x)) * ulp x"
  show ?thesis
  proof (cases "x = 0")
    case True
    then show ?thesis by simp
  next
    case nz: False
    then have pos: "0 < \<bar>x\<bar>" by simp
    from False pos have "log 2 \<bar>x\<bar> < - 1022"
      by (simp add: log_less_iff)
    then have "\<lfloor>log 2 \<bar>x\<bar>\<rfloor> < - 1022" by (simp add: floor_less_iff)
    then have e: "exponent_of x = - 1022" by (simp add: exponent_of_def)
    have "\<bar>?y - x\<bar> \<le> ulp x / 2" by (rule round64_half_ulp)
    also have "\<dots> = 2 powr (- 1075)"
      by (simp add: ulp_def e) (simp add: powr_minus powr_numeral)
    finally have "\<bar>?y - x\<bar> \<le> 2 powr (- 1075)" .
    moreover have "0 \<le> \<bar>x\<bar> / 2 ^ 53" by simp
    ultimately have "\<bar>?y - x\<bar> \<le> \<bar>x\<bar> / 2 ^ 53 + 2 powr (- 1075)" by linarith
    with round64_finite [OF assms] show ?thesis by blast
  qed
qed

lemma round64_ge_power:
  assumes low: "2 powr of_int k \<le> x" and k: "- 1022 \<le> k" and fin: "x < overflow_threshold"
  shows "\<exists>y. round64 x = Fin y \<and> 2 powr of_int k \<le> y"
proof -
  have xpos: "0 < x" using low powr_gt_zero [of 2 "of_int k"] by linarith
  then have ax: "\<bar>x\<bar> = x" by simp
  have "of_int k \<le> log 2 x" using low xpos by (simp add: le_log_iff)
  then have ke: "k \<le> \<lfloor>log 2 x\<rfloor>" by (simp add: le_floor_iff)
  with k have e: "exponent_of x = \<lfloor>log 2 x\<rfloor>" by (simp add: exponent_of_def ax)
  let ?e = "exponent_of x"
  have le: "2 powr of_int ?e \<le> x"
  proof -
    have "of_int \<lfloor>log 2 x\<rfloor> \<le> log 2 x" by simp
    then have "2 powr of_int \<lfloor>log 2 x\<rfloor> \<le> 2 powr log 2 x" by (simp only: powr_le_cancel_iff)
    with xpos show ?thesis by (simp add: e)
  qed
  have u: "ulp x * 2 ^ 52 = 2 powr of_int ?e"
    by (simp add: ulp_def powr_diff powr_numeral)
  then have "of_int (2 ^ 52) \<le> x / ulp x"
    using le ulp_pos [of x] by (simp add: le_divide_eq mult.commute)
  then have "2 ^ 52 \<le> round_half_even (x / ulp x)" by (rule round_half_even_ge)
  then have "(2::real) ^ 52 \<le> of_int (round_half_even (x / ulp x))"
    by (metis of_int_le_iff of_int_numeral of_int_power)
  then have "2 ^ 52 * ulp x \<le> of_int (round_half_even (x / ulp x)) * ulp x"
    using ulp_pos [of x] by (intro mult_right_mono) simp_all
  then have a: "2 powr of_int ?e \<le> of_int (round_half_even (x / ulp x)) * ulp x"
    using u by (simp add: mult.commute)
  have b: "(2::real) powr of_int k \<le> 2 powr of_int ?e"
    using ke e by simp
  from b a have "2 powr of_int k \<le> of_int (round_half_even (x / ulp x)) * ulp x"
    by (rule order_trans)
  moreover have "round64 x = Fin (of_int (round_half_even (x / ulp x)) * ulp x)"
    using fin xpos by (intro round64_finite) simp
  ultimately show ?thesis by blast
qed

lemma unit_roundoff_bounds: "0 < unit_roundoff" "unit_roundoff < 1"
  by (simp_all add: unit_roundoff_def)

lemma normal_or_zero_nonneg: "v = 0 \<or> 2 powr (- 1022) \<le> v \<Longrightarrow> 0 \<le> (v::real)"
  using powr_gt_zero [of "2::real" "- 1022"] by (elim disjE) linarith+

lemma sum_list_normal_nonneg:
  "\<forall>v \<in> set vs. v = 0 \<or> 2 powr (- 1022) \<le> v \<Longrightarrow> 0 \<le> sum_list (vs :: real list)"
  by (intro sum_list_nonneg) (blast intro: normal_or_zero_nonneg)

text \<open>One rounded addition of two values that are zero or normal.\<close>

lemma fadd_step:
  assumes a: "a = 0 \<or> 2 powr (- 1022) \<le> a" and x: "x = 0 \<or> 2 powr (- 1022) \<le> x"
    and fin: "a + x < overflow_threshold"
  shows "\<exists>b. fadd (Fin a) (Fin x) = Fin b \<and> (b = 0 \<or> 2 powr (- 1022) \<le> b)
           \<and> (a + x) * (1 - unit_roundoff) \<le> b \<and> b \<le> (a + x) * (1 + unit_roundoff)"
proof (cases "a + x = 0")
  case True
  then show ?thesis by simp
next
  case False
  from a x have nn: "0 \<le> a" "0 \<le> x" by (blast intro: normal_or_zero_nonneg)+
  with False a x have low: "2 powr (- 1022) \<le> a + x" by auto
  with nn have low': "2 powr (- 1022) \<le> \<bar>a + x\<bar>" by simp
  from fin nn have fin': "\<bar>a + x\<bar> < overflow_threshold" by simp
  from round64_normal [OF low' fin'] obtain b
    where b: "round64 (a + x) = Fin b" and err: "\<bar>b - (a + x)\<bar> \<le> \<bar>a + x\<bar> / 2 ^ 53" by blast
  from low have "2 powr of_int (- 1022) \<le> a + x" by simp
  from round64_ge_power [OF this _ fin] b have "2 powr (- 1022) \<le> b" by simp
  moreover have "(a + x) * (1 - unit_roundoff) \<le> b \<and> b \<le> (a + x) * (1 + unit_roundoff)"
  proof -
    define s where "s = a + x"
    define d where "d = s * unit_roundoff"
    from err nn have "\<bar>b - s\<bar> \<le> d"
      by (simp add: unit_roundoff_def s_def d_def)
    then have "s - d \<le> b" and "b \<le> s + d" by (simp_all add: abs_le_iff)
    moreover have "s * (1 - unit_roundoff) = s - d" and "s * (1 + unit_roundoff) = s + d"
      by (simp_all add: d_def algebra_simps)
    ultimately show ?thesis by (simp add: s_def)
  qed
  ultimately show ?thesis using b by simp
qed

lemma foldl_fadd_bounds:
  assumes "a = 0 \<or> 2 powr (- 1022) \<le> a"
    and "\<forall>v \<in> set xs. v = 0 \<or> 2 powr (- 1022) \<le> v"
    and "(a + sum_list xs) * (1 + unit_roundoff) ^ length xs < overflow_threshold"
  shows "\<exists>t. foldl fadd (Fin a) (map Fin xs) = Fin t
           \<and> (a + sum_list xs) * (1 - unit_roundoff) ^ length xs \<le> t
           \<and> t \<le> (a + sum_list xs) * (1 + unit_roundoff) ^ length xs"
  using assms
proof (induction xs arbitrary: a)
  case Nil
  then show ?case by simp
next
  case (Cons x xs)
  let ?u = unit_roundoff
  let ?k = "length xs"
  let ?S = "sum_list xs"
  have u: "0 < ?u" "?u < 1" by (rule unit_roundoff_bounds)+
  from Cons.prems(1) have a0: "0 \<le> a" by (rule normal_or_zero_nonneg)
  from Cons.prems(2) have x0: "0 \<le> x" by (simp add: normal_or_zero_nonneg)
  from Cons.prems(2) have S0: "0 \<le> ?S" by (intro sum_list_normal_nonneg) simp
  have p1: "1 \<le> (1 + ?u) ^ Suc ?k" using u by (intro one_le_power) simp
  have pk: "0 \<le> (1 + ?u) ^ ?k" "0 \<le> (1 - ?u) ^ ?k" using u by simp_all
  have "a + x \<le> (a + x + ?S) * 1" using S0 by simp
  also have "\<dots> \<le> (a + x + ?S) * (1 + ?u) ^ Suc ?k"
    using a0 x0 S0 p1 by (intro mult_left_mono) simp_all
  also have "\<dots> < overflow_threshold" using Cons.prems(3) by (simp add: add.assoc)
  finally have fin: "a + x < overflow_threshold" .
  from Cons.prems have xn: "x = 0 \<or> 2 powr (- 1022) \<le> x" by simp
  from fadd_step [OF Cons.prems(1) xn fin] obtain b
    where b: "fadd (Fin a) (Fin x) = Fin b" and bn: "b = 0 \<or> 2 powr (- 1022) \<le> b"
      and lo: "(a + x) * (1 - ?u) \<le> b" and hi: "b \<le> (a + x) * (1 + ?u)"
    by blast
  have hi': "b + ?S \<le> (a + x + ?S) * (1 + ?u)"
  proof -
    have "?S \<le> ?S * (1 + ?u)" using S0 u by (simp add: algebra_simps)
    with hi show ?thesis by (simp add: algebra_simps)
  qed
  have lo': "(a + x + ?S) * (1 - ?u) \<le> b + ?S"
  proof -
    have "?S * (1 - ?u) \<le> ?S" using S0 u by (simp add: algebra_simps)
    with lo show ?thesis by (simp add: algebra_simps)
  qed
  have "(b + ?S) * (1 + ?u) ^ ?k \<le> ((a + x + ?S) * (1 + ?u)) * (1 + ?u) ^ ?k"
    using hi' pk by (intro mult_right_mono)
  then have up: "(b + ?S) * (1 + ?u) ^ ?k \<le> (a + x + ?S) * (1 + ?u) ^ Suc ?k"
    by (simp add: mult.assoc)
  with Cons.prems(3) have fin2: "(b + ?S) * (1 + ?u) ^ ?k < overflow_threshold"
    by (simp add: add.assoc)
  from Cons.prems have rest: "\<forall>v \<in> set xs. v = 0 \<or> 2 powr (- 1022) \<le> v" by simp
  from Cons.IH [OF bn rest fin2] obtain t
    where t: "foldl fadd (Fin b) (map Fin xs) = Fin t"
      and tlo: "(b + ?S) * (1 - ?u) ^ ?k \<le> t" and thi: "t \<le> (b + ?S) * (1 + ?u) ^ ?k"
    by blast
  have "((a + x + ?S) * (1 - ?u)) * (1 - ?u) ^ ?k \<le> (b + ?S) * (1 - ?u) ^ ?k"
    using lo' pk by (intro mult_right_mono)
  then have down: "(a + x + ?S) * (1 - ?u) ^ Suc ?k \<le> (b + ?S) * (1 - ?u) ^ ?k"
    by (simp add: mult.assoc)
  from t b have "foldl fadd (Fin a) (map Fin (x # xs)) = Fin t" by simp
  moreover from down tlo have "(a + sum_list (x # xs)) * (1 - ?u) ^ length (x # xs) \<le> t"
    by (simp add: add.assoc)
  moreover from up thi have "t \<le> (a + sum_list (x # xs)) * (1 + ?u) ^ length (x # xs)"
    by (simp add: add.assoc)
  ultimately show ?case by blast
qed

lemma power_one_plus_bound:
  fixes u :: real
  assumes "0 \<le> u" and "2 * real k * u \<le> 1"
  shows "(1 + u) ^ k \<le> 1 + 2 * real k * u"
  using assms(2)
proof (induction k)
  case 0
  then show ?case by simp
next
  case (Suc k)
  from Suc.prems assms(1) have k: "2 * real k * u \<le> 1"
    by (simp add: algebra_simps)
  have "(1 + u) ^ Suc k = (1 + u) ^ k * (1 + u)" by simp
  also have "\<dots> \<le> (1 + 2 * real k * u) * (1 + u)"
    using Suc.IH [OF k] assms(1) by (intro mult_right_mono) simp_all
  also have "\<dots> = 1 + 2 * real k * u + u + (2 * real k * u) * u" by (simp add: algebra_simps)
  also have "\<dots> \<le> 1 + 2 * real k * u + u + 1 * u"
    using k assms(1) by (intro add_left_mono mult_right_mono) simp_all
  also have "\<dots> = 1 + 2 * real (Suc k) * u" by (simp add: algebra_simps)
  finally show ?case .
qed

lemma power_one_minus_bound:
  fixes u :: real
  assumes "0 \<le> u" and "u \<le> 1"
  shows "1 - real k * u \<le> (1 - u) ^ k"
  using Bernoulli_inequality [of "- u" k] assms by simp

lemma naive_sum_accurate:
  assumes "real n \<le> 2 ^ 52"
  shows "accurate_sum n (real n / 2 ^ 52) naive_sum"
  unfolding accurate_sum_def
proof (intro allI impI, elim conjE)
  fix vs :: "real list"
  let ?u = unit_roundoff
  let ?\<epsilon> = "real n / 2 ^ 52"
  let ?k = "length vs"
  let ?S = "sum_list vs"
  assume len: "?k \<le> n" and vals: "\<forall>v \<in> set vs. v = 0 \<or> 2 powr (- 1022) \<le> v"
    and fin: "?S * (1 + ?\<epsilon>) < overflow_threshold"
  have S0: "0 \<le> ?S" using vals by (rule sum_list_normal_nonneg)
  have u: "0 \<le> ?u" "?u \<le> 1" using unit_roundoff_bounds by simp_all
  have ku: "2 * real ?k * ?u \<le> ?\<epsilon>"
    using len by (simp add: unit_roundoff_def divide_right_mono)
  have e1: "?\<epsilon> \<le> 1" using assms by simp
  from ku e1 have ku1: "2 * real ?k * ?u \<le> 1" by linarith
  have up: "(1 + ?u) ^ ?k \<le> 1 + ?\<epsilon>"
    using power_one_plus_bound [OF u(1) ku1] ku by linarith
  have down: "1 - ?\<epsilon> \<le> (1 - ?u) ^ ?k"
  proof -
    have "real ?k * ?u \<le> 2 * real ?k * ?u" using u by simp
    with ku power_one_minus_bound [OF u, of ?k] show ?thesis by linarith
  qed
  have "?S * (1 + ?u) ^ ?k \<le> ?S * (1 + ?\<epsilon>)" using up S0 by (intro mult_left_mono)
  with fin have "(0 + ?S) * (1 + ?u) ^ ?k < overflow_threshold" by simp
  from foldl_fadd_bounds [OF _ vals this] obtain t
    where t: "foldl fadd (Fin 0) (map Fin vs) = Fin t"
      and lo: "?S * (1 - ?u) ^ ?k \<le> t" and hi: "t \<le> ?S * (1 + ?u) ^ ?k"
    by auto
  have "?S * (1 - ?\<epsilon>) \<le> ?S * (1 - ?u) ^ ?k" using down S0 by (intro mult_left_mono)
  with lo have lo': "?S - ?\<epsilon> * ?S \<le> t" by (simp add: algebra_simps)
  have "?S * (1 + ?u) ^ ?k \<le> ?S * (1 + ?\<epsilon>)" using up S0 by (intro mult_left_mono)
  with hi have hi': "t \<le> ?S + ?\<epsilon> * ?S" by (simp add: algebra_simps)
  from lo' hi' have "\<bar>t - ?S\<bar> \<le> ?\<epsilon> * ?S" by linarith
  with t show "\<exists>t. naive_sum (map Fin vs) = Fin t \<and> \<bar>t - ?S\<bar> \<le> ?\<epsilon> * ?S"
    by (auto simp add: naive_sum_def)
qed

lemma merge_on_keyed:
  assumes "distinct ks" and "\<forall>l \<in> set left. lkey l \<in> set ks"
  shows "merge_on lkey fst left (map (\<lambda>k. (k, f k)) ks) = map (\<lambda>l. (l, (lkey l, f (lkey l)))) left"
proof -
  have "[t \<leftarrow> map (\<lambda>k. (k, f k)) ks. fst t = lkey l] = [(lkey l, f (lkey l))]" if "l \<in> set left" for l
    using assms that by (simp add: filter_keyed_unique)
  then have "merge_on lkey fst left (map (\<lambda>k. (k, f k)) ks) =
      concat (map (\<lambda>l. [(l, (lkey l, f (lkey l)))]) left)"
    unfolding merge_on_def by (intro arg_cong [where f = concat] map_cong) simp_all
  then show ?thesis by simp
qed

lemma proportion_float64_rows:
  "proportion_float64 fsum grouped =
     map (\<lambda>g. \<lparr>f_Reference_area = fst (fst g), f_Measure = snd (fst g), f_OBS_VALUE = snd g,
              f_Total = float64_total fsum grouped (fst (fst g)),
              f_Proportion = fdiv (snd g) (float64_total fsum grouped (fst (fst g)))\<rparr>) grouped"
proof -
  have "merge_on (\<lambda>g. fst (fst g)) fst grouped
      (map (\<lambda>a. (a, float64_total fsum grouped a)) (sort (remdups (map (\<lambda>g. fst (fst g)) grouped)))) =
    map (\<lambda>g. (g, (fst (fst g), float64_total fsum grouped (fst (fst g))))) grouped"
    by (rule merge_on_keyed) simp_all
  then show ?thesis
    by (simp add: proportion_float64_def Let_def float64_total_def o_def)
qed

lemma sum_list_abs_diff:
  fixes f g h :: "'a \<Rightarrow> real"
  assumes "\<forall>v \<in> set vs. \<bar>f v - g v\<bar> \<le> h v"
  shows "\<bar>sum_list (map f vs) - sum_list (map g vs)\<bar> \<le> sum_list (map h vs)"
  using assms
proof (induction vs)
  case Nil
  then show ?case by simp
next
  case (Cons v vs)
  then have "\<bar>f v - g v\<bar> \<le> h v"
    and "\<bar>sum_list (map f vs) - sum_list (map g vs)\<bar> \<le> sum_list (map h vs)" by simp_all
  then show ?case by simp
qed

lemma tolerance_numbers:
  "(2::real) / 2 ^ 53 \<le> 1 / 10 ^ 10"
  "real k \<le> 10 ^ 9 \<Longrightarrow> real k * 2 powr (- 1075) \<le> 1 / 10 ^ 10"
proof -
  show "(2::real) / 2 ^ 53 \<le> 1 / 10 ^ 10" by simp
  assume k: "real k \<le> 10 ^ 9"
  have "(2::real) powr (- 1075) = inverse (2 powr 1075)" by (rule powr_minus)
  also have "(2::real) powr 1075 = 2 ^ 1075" by (rule powr_numeral) simp
  finally have eta: "(2::real) powr (- 1075) = inverse (2 ^ 1075)" .
  have "(2::real) ^ 64 \<le> 2 ^ 1075" by (rule power_increasing) simp_all
  moreover have "(0::real) < 2 ^ 64" by (rule zero_less_power) simp
  ultimately have "inverse ((2::real) ^ 1075) \<le> inverse (2 ^ 64)"
    by (rule le_imp_inverse_le)
  with eta have small: "(2::real) powr (- 1075) \<le> inverse (2 ^ 64)" by (simp only:)
  have "real k * 2 powr (- 1075) \<le> 10 ^ 9 * inverse (2 ^ 64)"
    using k small by (intro mult_mono) simp_all
  also have "\<dots> \<le> (1::real) / 10 ^ 10" by simp
  finally show "real k * 2 powr (- 1075) \<le> 1 / 10 ^ 10" .
qed

lemma tiny_le_one: "(2::real) powr (- 1022) \<le> 1"
proof -
  have "(2::real) powr (- 1022) \<le> 2 powr 0" by (rule powr_mono) simp_all
  then show ?thesis by simp
qed

text \<open>
  Claim C1, as the code has it.  Take an aggregated table of float64 values and a row of
  the transform whose total is not 0.  Let the values of the row's area be finite, not
  negative, each 0 or at least the smallest normal number, at most n of them with n at
  most 10^9, and let the summation of the totals be accurate to a relative error \<open>\<epsilon>\<close> of
  at most 1e-10 on such lists, the sum staying below the overflow threshold.  Then the
  total is a positive finite number within \<open>\<epsilon>\<close> of the exact sum of the values, the
  proportions of the area are finite numbers, and their sum (the exact sum of these
  float64 numbers) is within 1e-9 of 1.
\<close>

theorem float64_proportions_sum_near_one:
  assumes acc: "accurate_sum n \<epsilon> fsum" and e0: "0 \<le> \<epsilon>" and e1: "\<epsilon> \<le> 1 / 10 ^ 10"
    and nb: "n \<le> 10 ^ 9"
    and row: "row \<in> set (proportion_float64 fsum grouped)"
    and part: "map snd [g \<leftarrow> grouped. fst (fst g) = f_Reference_area row] = map Fin vs"
    and size: "length vs \<le> n"
    and vals: "\<forall>v \<in> set vs. v = 0 \<or> 2 powr (- 1022) \<le> v"
    and bound: "sum_list vs * (1 + \<epsilon>) < overflow_threshold"
    and nz: "f_Total row \<noteq> Fin 0"
  shows "\<exists>T ps. f_Total row = Fin T \<and> 0 < T \<and> \<bar>T - sum_list vs\<bar> \<le> \<epsilon> * sum_list vs
      \<and> map f_Proportion
           [r \<leftarrow> proportion_float64 fsum grouped. f_Reference_area r = f_Reference_area row] =
         map Fin ps
      \<and> \<bar>sum_list ps - 1\<bar> \<le> 1 / 10 ^ 9"
proof -
  let ?a = "f_Reference_area row"
  let ?S = "sum_list vs"
  let ?k = "length vs"
  let ?eta = "2 powr (- 1075) :: real"
  from row have tot: "f_Total row = float64_total fsum grouped ?a"
    by (auto simp add: proportion_float64_rows)
  have "[v \<leftarrow> map Fin vs. v \<noteq> NaN] = map Fin vs" by (induction vs) simp_all
  with part have total: "float64_total fsum grouped ?a = fsum (map Fin vs)"
    by (simp add: float64_total_def)
  from acc size vals bound obtain T
    where T: "fsum (map Fin vs) = Fin T" and Terr: "\<bar>T - ?S\<bar> \<le> \<epsilon> * ?S"
    unfolding accurate_sum_def by blast
  from tot total T have frT: "f_Total row = Fin T" by simp
  with nz have Tnz: "T \<noteq> 0" by simp
  have S0: "0 \<le> ?S" using vals by (rule sum_list_normal_nonneg)
  have Spos: "0 < ?S"
  proof (rule ccontr)
    assume "\<not> 0 < ?S"
    with S0 have "?S = 0" by simp
    with Terr have "T = 0" by simp
    with Tnz show False by simp
  qed
  have half: "\<epsilon> \<le> 1 / 2" using e1 by (rule order_trans) simp
  have eS: "\<epsilon> * ?S \<le> ?S / 2"
    using half S0 mult_right_mono [of \<epsilon> "1 / 2" ?S] by simp
  from Terr have "?S - \<epsilon> * ?S \<le> T" by (simp add: abs_le_iff)
  with eS have Tlow: "?S / 2 \<le> T" by linarith
  with Spos have Tpos: "0 < T" by linarith
  have ratio: "?S / T \<le> 2"
    using Tlow Tpos by (simp add: divide_le_eq)
  have ratio0: "0 \<le> ?S / T" using S0 Tpos by simp
  \<comment> \<open>the rows of the area and their proportions\<close>
  have rows: "map f_Proportion
       [r \<leftarrow> proportion_float64 fsum grouped. f_Reference_area r = ?a] =
      map (\<lambda>v. fdiv v (Fin T)) (map snd [g \<leftarrow> grouped. fst (fst g) = ?a])"
    using tot total T
    by (simp add: proportion_float64_rows filter_map o_def cong: map_cong)
  have props: "map (\<lambda>v. fdiv v (Fin T)) (map Fin vs) = map (\<lambda>v. round64 (v / T)) vs"
    using Tnz by simp
  \<comment> \<open>every quotient is rounded to a finite number close to it\<close>
  have quot: "round64 (v / T) = Fin (fin_value (round64 (v / T)))
      \<and> \<bar>fin_value (round64 (v / T)) - v / T\<bar> \<le> (v / T) / 2 ^ 53 + ?eta"
    if v: "v \<in> set vs" for v
  proof -
    from vals v have v0: "0 \<le> v" by (blast intro: normal_or_zero_nonneg)
    have "v \<le> ?S"
      using v vals by (intro member_le_sum_list) (blast intro: normal_or_zero_nonneg)+
    then have "v / T \<le> ?S / T" using Tpos by (simp add: divide_right_mono)
    with ratio have le2: "v / T \<le> 2" by linarith
    have q0: "0 \<le> v / T" using v0 Tpos by simp
    have "(2::real) < overflow_threshold" by (simp add: overflow_threshold_def)
    with le2 q0 have "\<bar>v / T\<bar> < overflow_threshold" by simp
    from round64_accuracy [OF this] obtain y
      where "round64 (v / T) = Fin y" and "\<bar>y - v / T\<bar> \<le> \<bar>v / T\<bar> / 2 ^ 53 + ?eta" by blast
    with q0 show ?thesis by (simp add: fin_value_def)
  qed
  let ?ps = "map (\<lambda>v. fin_value (round64 (v / T))) vs"
  have fin: "map (\<lambda>v. round64 (v / T)) vs = map Fin ?ps"
    using quot by simp
  have "\<bar>sum_list ?ps - sum_list (map (\<lambda>v. v / T) vs)\<bar> \<le>
      sum_list (map (\<lambda>v. (v / T) / 2 ^ 53 + ?eta) vs)"
    using quot by (intro sum_list_abs_diff) blast
  also have "sum_list (map (\<lambda>v. (v / T) / 2 ^ 53 + ?eta) vs) = (?S / T) / 2 ^ 53 + real ?k * ?eta"
    by (simp add: sum_list_addf sum_list_divide sum_list_triv)
  finally have d1: "\<bar>sum_list ?ps - ?S / T\<bar> \<le> (?S / T) / 2 ^ 53 + real ?k * ?eta"
    by (simp add: sum_list_divide)
  have "(?S / T) / 2 ^ 53 \<le> 2 / 2 ^ 53" using ratio by (simp add: divide_right_mono)
  with tolerance_numbers(1) have d1a: "(?S / T) / 2 ^ 53 \<le> 1 / 10 ^ 10" by linarith
  have "real ?k \<le> 10 ^ 9"
  proof -
    from size nb have "?k \<le> 10 ^ 9" by (rule order_trans)
    then have "real ?k \<le> real (10 ^ 9)" by (simp only: of_nat_le_iff)
    then show ?thesis by simp
  qed
  then have d1b: "real ?k * ?eta \<le> 1 / 10 ^ 10" by (rule tolerance_numbers(2))
  have "?S / T - 1 = (?S - T) / T" using Tpos by (simp add: field_simps)
  then have "\<bar>?S / T - 1\<bar> = \<bar>?S - T\<bar> / T"
    using Tpos by (simp only: abs_divide)
  also have "\<dots> \<le> (\<epsilon> * ?S) / T"
    using Terr Tpos by (simp add: divide_right_mono abs_minus_commute)
  also have "\<dots> = \<epsilon> * (?S / T)" by simp
  also have "\<dots> \<le> \<epsilon> * 2" using ratio e0 by (intro mult_left_mono)
  also have "\<dots> \<le> 2 / 10 ^ 10" using e1 by simp
  finally have d2: "\<bar>?S / T - 1\<bar> \<le> 2 / 10 ^ 10" .
  from d1 d1a d1b d2 have "\<bar>sum_list ?ps - 1\<bar> \<le> 1 / 10 ^ 10 + 1 / 10 ^ 10 + 2 / 10 ^ 10" by linarith
  also have "\<dots> \<le> (1::real) / 10 ^ 9" by simp
  finally have near: "\<bar>sum_list ?ps - 1\<bar> \<le> 1 / 10 ^ 9" .
  from rows part props fin have "map f_Proportion
       [r \<leftarrow> proportion_float64 fsum grouped. f_Reference_area r = ?a] = map Fin ?ps"
    by simp
  with frT Tpos Terr near show ?thesis by blast
qed

theorem float64_proportions_sum_near_one_witness:
  "\<exists>T ps. f_Total (hd (proportion_float64 naive_sum float64_example)) = Fin T \<and> 0 < T
      \<and> \<bar>T - 40\<bar> \<le> 450359 / 2 ^ 52 * 40
      \<and> map f_Proportion
           [r \<leftarrow> proportion_float64 naive_sum float64_example. f_Reference_area r = ''A''] =
         map Fin ps
      \<and> \<bar>sum_list ps - 1\<bar> \<le> 1 / 10 ^ 9"
proof -
  let ?row = "hd (proportion_float64 naive_sum float64_example)"
  let ?vs = "[10, 30] :: real list"
  have acc: "accurate_sum 450359 (real 450359 / 2 ^ 52) naive_sum"
    by (rule naive_sum_accurate) simp
  have e0: "0 \<le> real 450359 / 2 ^ 52" by simp
  have e1: "real 450359 / 2 ^ 52 \<le> 1 / 10 ^ 10" by simp
  have nb: "(450359::nat) \<le> 10 ^ 9" by simp
  have row: "?row \<in> set (proportion_float64 naive_sum float64_example)"
    by (rule hd_in_set) (simp add: proportion_float64_rows float64_example_def)
  have area: "f_Reference_area ?row = ''A''"
    by (simp add: proportion_float64_rows float64_example_def)
  have part: "map snd [g \<leftarrow> float64_example. fst (fst g) = f_Reference_area ?row] = map Fin ?vs"
    unfolding area by (simp add: float64_example_def)
  have size: "length ?vs \<le> 450359" by simp
  have vals: "\<forall>v \<in> set ?vs. v = 0 \<or> 2 powr (- 1022) \<le> v"
    using tiny_le_one by simp
  have bound: "sum_list ?vs * (1 + real 450359 / 2 ^ 52) < overflow_threshold"
    by (simp add: overflow_threshold_def)
  have nz: "f_Total ?row \<noteq> Fin 0"
  proof -
    from acc size vals bound obtain t
      where t: "naive_sum (map Fin ?vs) = Fin t"
        and err: "\<bar>t - sum_list ?vs\<bar> \<le> real 450359 / 2 ^ 52 * sum_list ?vs"
      unfolding accurate_sum_def by blast
    from err have "t \<noteq> 0" by auto
    moreover have "f_Total ?row = naive_sum (map Fin ?vs)"
      by (simp add: proportion_float64_rows float64_example_def float64_total_def)
    ultimately show ?thesis using t by simp
  qed
  from float64_proportions_sum_near_one [OF acc e0 e1 nb row part size vals bound nz]
  show ?thesis by (simp add: area)
qed

text \<open>
  Two values of \<open>2^1023\<close> in one area: their total overflows to plus infinity, which is
  not 0, both proportions are 0, and the proportions sum to 0, not to 1.
\<close>

theorem float64_proportions_counterexample:
  "map f_Total (proportion_float64 naive_sum float64_overflow_example) = [PosInf, PosInf]
   \<and> map f_Proportion (proportion_float64 naive_sum float64_overflow_example) = [Fin 0, Fin 0]
   \<and> naive_sum (map f_Proportion (proportion_float64 naive_sum float64_overflow_example)) = Fin 0"
proof -
  let ?a = "2 ^ 1023 :: real"
  have "(2::real) powr of_int 1023 = 2 powr 1023" by simp
  also have "\<dots> = 2 ^ 1023" by (rule powr_numeral) simp
  finally have pw: "(2::real) powr of_int 1023 = ?a" .
  have fin: "?a < overflow_threshold" by (simp add: overflow_threshold_def)
  from round64_ge_power [of 1023 ?a] pw fin obtain y
    where y: "round64 ?a = Fin y" and ge: "?a \<le> y" by auto
  have "overflow_threshold \<le> y + ?a" using ge by (simp add: overflow_threshold_def)
  then have inf: "round64 (y + ?a) = PosInf" by (simp add: round64_def)
  have total: "naive_sum [Fin ?a, Fin ?a] = PosInf"
    using y inf by (simp add: naive_sum_def)
  have tot: "float64_total naive_sum float64_overflow_example ''A'' = PosInf"
    using total by (simp add: float64_total_def float64_overflow_example_def)
  have rows: "proportion_float64 naive_sum float64_overflow_example =
      [\<lparr>f_Reference_area = ''A'', f_Measure = ''X'', f_OBS_VALUE = Fin ?a, f_Total = PosInf,
         f_Proportion = Fin 0\<rparr>,
       \<lparr>f_Reference_area = ''A'', f_Measure = ''Y'', f_OBS_VALUE = Fin ?a, f_Total = PosInf,
         f_Proportion = Fin 0\<rparr>]"
    using tot unfolding proportion_float64_rows by (simp add: float64_overflow_example_def)
  show ?thesis by (simp add: rows naive_sum_def)
qed


section \<open>Properties of the percent change\<close>

lemma map_fst_groupby_sum [simp]: "map fst (groupby_sum key col df) = group_keys key df"
  by (simp add: groupby_sum_def o_def)

lemma map_fst_groupby_mean [simp]: "map fst (groupby_mean key col df) = group_keys key df"
  by (simp add: groupby_mean_def o_def)








section \<open>Properties of the pivot\<close>

lemma zip_map_same: "zip xs (map f xs) = map (\<lambda>x. (x, f x)) xs"
  by (induction xs) simp_all

lemma pivot_distinct:
  assumes "distinct (map fst long)"
  shows "pivot long =
     Inr \<lparr>w_index = sort (remdups (map (\<lambda>g. fst (fst g)) long)),
          w_columns = sort (remdups (map (\<lambda>g. snd (fst g)) long)),
          w_values = map (\<lambda>i. map (\<lambda>c. map_of long (i, c))
                       (sort (remdups (map (\<lambda>g. snd (fst g)) long))))
                     (sort (remdups (map (\<lambda>g. fst (fst g)) long)))\<rparr>"
  using assms by (simp add: pivot_def Let_def)

lemma wide_cells_table:
  "wide_cells \<lparr>w_index = idx, w_columns = cols, w_values = map (\<lambda>i. map (\<lambda>c. f i c) cols) idx\<rparr> =
     concat (map (\<lambda>i. map (\<lambda>c. ((i, c), f i c)) cols) idx)"
  by (simp add: wide_cells_def zip_map_same o_def)

lemma set_wide_cells_table:
  "set (wide_cells \<lparr>w_index = idx, w_columns = cols,
          w_values = map (\<lambda>i. map (\<lambda>c. f i c) cols) idx\<rparr>) =
     {((i, c), f i c) | i c. i \<in> set idx \<and> c \<in> set cols}"
  by (auto simp add: wide_cells_table)

lemma set_unpivot: "set (unpivot w) = {(k, x). (k, Some x) \<in> set (wide_cells w)}"
  by (auto simp add: unpivot_def split: option.splits)

lemma pivot_round_trip:
  assumes "distinct (map fst long)" and "pivot long = Inr w"
  shows "set (unpivot w) = set long"
proof -
  let ?idx = "sort (remdups (map (\<lambda>g. fst (fst g)) long))"
  let ?cols = "sort (remdups (map (\<lambda>g. snd (fst g)) long))"
  from assms have w: "w = \<lparr>w_index = ?idx, w_columns = ?cols,
      w_values = map (\<lambda>i. map (\<lambda>c. map_of long (i, c)) ?cols) ?idx\<rparr>"
    by (simp add: pivot_distinct)
  have "set (unpivot w) =
      {((i, c), x) | i c x. i \<in> set ?idx \<and> c \<in> set ?cols \<and> map_of long (i, c) = Some x}"
    unfolding set_unpivot w set_wide_cells_table by force
  also have "\<dots> = set long"
  proof (rule set_eqI)
    fix p :: "('a \<times> 'b) \<times> real"
    obtain i c x where p: "p = ((i, c), x)" by (cases p) auto
    have "map_of long (i, c) = Some x \<longleftrightarrow> ((i, c), x) \<in> set long"
      using assms(1) by (rule map_of_eq_Some_iff)
    moreover have "i \<in> set ?idx \<and> c \<in> set ?cols" if "((i, c), x) \<in> set long"
      using that by (force simp add: image_iff)
    ultimately show "p \<in> {((i, c), x) | i c x.
        i \<in> set ?idx \<and> c \<in> set ?cols \<and> map_of long (i, c) = Some x} \<longleftrightarrow> p \<in> set long"
      unfolding p by auto
  qed
  finally show ?thesis .
qed

lemma sorted_by_distinct_keys:
  fixes xs :: "('k::linorder \<times> 'v::linorder) list"
  shows "sorted (map fst xs) \<Longrightarrow> distinct (map fst xs) \<Longrightarrow> sorted xs"
proof (induction xs)
  case Nil
  then show ?case by simp
next
  case (Cons p ps)
  have "p \<le> q" if "q \<in> set ps" for q
  proof -
    from that Cons.prems have "fst p \<le> fst q" "fst p \<noteq> fst q" by auto
    then have "fst p < fst q" by simp
    then show ?thesis by (cases p, cases q) (simp add: less_eq_prod_def)
  qed
  with Cons show ?case by simp
qed

lemma concat_map_product:
  "concat (map (\<lambda>i. map (\<lambda>c. g i c) cols) idx) = map (\<lambda>(i, c). g i c) (List.product idx cols)"
  by (induction idx) (simp_all add: o_def)

lemma sorted_product:
  fixes xs :: "'a::linorder list" and ys :: "'b::linorder list"
  shows "sorted xs \<Longrightarrow> distinct xs \<Longrightarrow> sorted ys \<Longrightarrow> sorted (List.product xs ys)"
proof (induction xs)
  case Nil
  then show ?case by simp
next
  case (Cons x xs)
  have "sorted (map (Pair x) ys)"
    using Cons.prems(3) by (induction ys) (auto simp add: less_eq_prod_def)
  moreover have "sorted (List.product xs ys)" using Cons by simp
  moreover have "p \<le> q" if "p \<in> set (map (Pair x) ys)" "q \<in> set (List.product xs ys)" for p q
  proof -
    from that have "fst p = x" and "fst q \<in> set xs" by auto
    with Cons.prems have "fst p \<le> fst q" and "fst p \<noteq> fst q" by auto
    then have "fst p < fst q" by simp
    then show ?thesis by (cases p, cases q) (simp add: less_eq_prod_def)
  qed
  ultimately show ?case by (simp add: sorted_append)
qed

lemma unpivot_table:
  "unpivot \<lparr>w_index = idx, w_columns = cols, w_values = map (\<lambda>i. map (\<lambda>c. f (i, c)) cols) idx\<rparr> =
     concat (map (\<lambda>k. case f k of None \<Rightarrow> [] | Some x \<Rightarrow> [(k, x)]) (List.product idx cols))"
  by (simp add: unpivot_def wide_cells_table [of idx cols "\<lambda>i c. f (i, c)"] concat_map_product
      o_def split_def cong: option.case_cong)

lemma map_fst_unpivot_table:
  "map fst (concat (map (\<lambda>k. case f k of None \<Rightarrow> [] | Some x \<Rightarrow> [(k, x)]) ks)) =
     [k \<leftarrow> ks. f k \<noteq> None]"
  by (induction ks) (auto split: option.splits)

lemma pivot_round_trip_list:
  fixes long :: "(('i::linorder \<times> 'c::linorder) \<times> real) list"
  assumes sorted: "sorted (map fst long)" and dist: "distinct (map fst long)"
    and piv: "pivot long = Inr w"
  shows "unpivot w = long"
proof -
  let ?idx = "sort (remdups (map (\<lambda>g. fst (fst g)) long))"
  let ?cols = "sort (remdups (map (\<lambda>g. snd (fst g)) long))"
  let ?keys = "[k \<leftarrow> List.product ?idx ?cols. map_of long k \<noteq> None]"
  from dist piv have w: "w = \<lparr>w_index = ?idx, w_columns = ?cols,
      w_values = map (\<lambda>i. map (\<lambda>c. map_of long (i, c)) ?cols) ?idx\<rparr>"
    by (simp add: pivot_distinct)
  have keys: "map fst (unpivot w) = ?keys"
    unfolding w unpivot_table map_fst_unpivot_table ..
  have "sorted (List.product ?idx ?cols)" by (rule sorted_product) simp_all
  then have sk: "sorted ?keys" by (rule sorted_wrt_filter)
  have "distinct (List.product ?idx ?cols)" by (rule distinct_product) simp_all
  then have dk: "distinct ?keys" by simp
  have su: "sorted (unpivot w)" using sk dk unfolding keys [symmetric] by (rule sorted_by_distinct_keys)
  have du: "distinct (unpivot w)" using dk unfolding keys [symmetric] by (rule distinct_map [THEN iffD1, THEN conjunct1])
  have sl: "sorted long" using sorted dist by (rule sorted_by_distinct_keys)
  have dl: "distinct long" using dist by (rule distinct_map [THEN iffD1, THEN conjunct1])
  have "set (unpivot w) = set long" using dist piv by (rule pivot_round_trip)
  with su du sl dl show ?thesis by (intro sorted_distinct_set_unique)
qed

lemma fillna_table:
  "fillna x \<lparr>w_index = idx, w_columns = cols, w_values = map (\<lambda>i. map (\<lambda>c. f i c) cols) idx\<rparr> =
     \<lparr>w_index = idx, w_columns = cols,
      w_values = map (\<lambda>i. map (\<lambda>c. Some (case f i c of None \<Rightarrow> x | Some y \<Rightarrow> y)) cols) idx\<rparr>"
  by (simp add: fillna_def o_def option.case_eq_if)

text \<open>
  Claim C4, as the code has it.  The greenhouse-gas line plot pivots the sums by year and
  measure: the pivot succeeds, its cell for a year and a measure is the sum of that
  combination when the grouped frame holds it and NaN when it does not, and reading the
  numbers of the wide frame back gives exactly the grouped frame, row for row.  The
  stacked area chart of the land dashboard pivots the sums by year and land type and then
  fills: its cell is the sum of the combination when the grouped frame holds it, and 0
  when it does not.
\<close>

theorem pivot_fill_behaviour:
  "(\<exists>w. df_plot df_filtered = Inr w
      \<and> w_index w = sort (remdups (map (\<lambda>g. fst (fst g)) (ghg_grouped df_filtered)))
      \<and> w_columns w = sort (remdups (map (\<lambda>g. snd (fst g)) (ghg_grouped df_filtered)))
      \<and> wide_cells w =
          concat (map (\<lambda>i. map (\<lambda>c. ((i, c), map_of (ghg_grouped df_filtered) (i, c)))
            (w_columns w)) (w_index w))
      \<and> unpivot w = ghg_grouped df_filtered)
   \<and> (map_of (ghg_grouped df_filtered) k = Some v) = ((k, v) \<in> set (ghg_grouped df_filtered))
   \<and> (\<exists>w. area_data df = Inr w
      \<and> w_index w = sort (remdups (map (\<lambda>g. fst (fst g)) (land_grouped df)))
      \<and> w_columns w = sort (remdups (map (\<lambda>g. snd (fst g)) (land_grouped df)))
      \<and> wide_cells w =
          concat (map (\<lambda>i. map (\<lambda>c. ((i, c),
              Some (case map_of (land_grouped df) (i, c) of None \<Rightarrow> 0 | Some y \<Rightarrow> y)))
            (w_columns w)) (w_index w)))"
proof -
  have dg: "distinct (map fst (ghg_grouped df_filtered))"
    by (simp add: ghg_grouped_def)
  have sg: "sorted (map fst (ghg_grouped df_filtered))"
    by (simp add: ghg_grouped_def)
  have dl: "distinct (map fst (land_grouped df))"
    by (simp add: land_grouped_def)
  let ?w = "\<lparr>w_index = sort (remdups (map (\<lambda>g. fst (fst g)) (ghg_grouped df_filtered))),
          w_columns = sort (remdups (map (\<lambda>g. snd (fst g)) (ghg_grouped df_filtered))),
          w_values = map (\<lambda>i. map (\<lambda>c. map_of (ghg_grouped df_filtered) (i, c))
                       (sort (remdups (map (\<lambda>g. snd (fst g)) (ghg_grouped df_filtered)))))
                     (sort (remdups (map (\<lambda>g. fst (fst g)) (ghg_grouped df_filtered))))\<rparr>"
  have pw: "df_plot df_filtered = Inr ?w"
    unfolding df_plot_def using dg by (rule pivot_distinct)
  then have "pivot (ghg_grouped df_filtered) = Inr ?w" by (simp add: df_plot_def)
  with sg dg have "unpivot ?w = ghg_grouped df_filtered"
    by (rule pivot_round_trip_list)
  with pw have ghg: "\<exists>w. df_plot df_filtered = Inr w
      \<and> w_index w = sort (remdups (map (\<lambda>g. fst (fst g)) (ghg_grouped df_filtered)))
      \<and> w_columns w = sort (remdups (map (\<lambda>g. snd (fst g)) (ghg_grouped df_filtered)))
      \<and> wide_cells w =
          concat (map (\<lambda>i. map (\<lambda>c. ((i, c), map_of (ghg_grouped df_filtered) (i, c)))
            (w_columns w)) (w_index w))
      \<and> unpivot w = ghg_grouped df_filtered"
    by (intro exI [where x = ?w]) (simp add: wide_cells_table)
  have look: "(map_of (ghg_grouped df_filtered) k = Some v) = ((k, v) \<in> set (ghg_grouped df_filtered))"
    using dg by (rule map_of_eq_Some_iff)
  let ?l = "\<lparr>w_index = sort (remdups (map (\<lambda>g. fst (fst g)) (land_grouped df))),
          w_columns = sort (remdups (map (\<lambda>g. snd (fst g)) (land_grouped df))),
          w_values = map (\<lambda>i. map (\<lambda>c. Some (case map_of (land_grouped df) (i, c) of
                              None \<Rightarrow> 0 | Some y \<Rightarrow> y))
                       (sort (remdups (map (\<lambda>g. snd (fst g)) (land_grouped df)))))
                     (sort (remdups (map (\<lambda>g. fst (fst g)) (land_grouped df))))\<rparr>"
  have "area_data df = Inr ?l"
    by (simp add: area_data_def pivot_distinct [OF dl] fillna_table)
  then have land: "\<exists>w. area_data df = Inr w
      \<and> w_index w = sort (remdups (map (\<lambda>g. fst (fst g)) (land_grouped df)))
      \<and> w_columns w = sort (remdups (map (\<lambda>g. snd (fst g)) (land_grouped df)))
      \<and> wide_cells w =
          concat (map (\<lambda>i. map (\<lambda>c. ((i, c),
              Some (case map_of (land_grouped df) (i, c) of None \<Rightarrow> 0 | Some y \<Rightarrow> y)))
            (w_columns w)) (w_index w))"
    by (intro exI [where x = ?l]) (simp add: wide_cells_table)
  from ghg look land show ?thesis by blast
qed

text \<open>
  Land rows of 2000 (Arable, 5) and 2001 (Pasture, 7 and Arable, 0): the combination
  2000 with Pasture is not observed and its cell is 0, like the cell of the observed 0 of
  2001 with Arable.
\<close>

theorem pivot_fill_counterexample:
  "area_data land_example =
     Inr \<lparr>w_index = [2000, 2001], w_columns = [''Arable'', ''Pasture''],
          w_values = [[Some 5, Some 0], [Some 0, Some 7]]\<rparr>"
  by (simp add: area_data_def land_grouped_def land_example_def groupby_sum_def group_keys_def
      group_rows_def series_sum_def dropna_def pivot_def fillna_def)

section \<open>Properties of the sum and the mean\<close>

lemma dropna_append: "dropna (xs @ ys) = dropna xs @ dropna ys"
  by (simp add: dropna_def)

lemma dropna_all_missing: "(\<And>v. v \<in> set vs \<Longrightarrow> v = None) \<Longrightarrow> dropna vs = []"
  by (induction vs) (auto simp add: dropna_Cons split: option.splits)

lemma series_sum_skip: "series_sum (vs @ None # ws) = series_sum (vs @ ws)"
  by (simp add: series_sum_def dropna_append dropna_Cons)

lemma series_sum_add: "series_sum (vs @ Some x # ws) = series_sum (vs @ ws) + x"
  by (simp add: series_sum_def dropna_append dropna_Cons)

lemma series_mean_skip: "series_mean (vs @ None # ws) = series_mean (vs @ ws)"
  by (simp add: series_mean_def dropna_append dropna_Cons)

lemma filter_filter_conj: "[r \<leftarrow> [r \<leftarrow> df. P r]. Q r] = [r \<leftarrow> df. P r \<and> Q r]"
  by (induction df) simp_all

text \<open>
  Claim C5.  The sum of \<^verbatim>\<open>create_time_series_chart\<close> gives, for every group, the sum of
  the values of the group that are not missing: a missing value adds nothing and a number
  adds itself.  A group all of whose values are missing sums to 0, as does the empty
  series.  Over an empty frame, and over a frame with no row of the total level, the
  aggregation gives the empty table, as does the unguarded aggregation of the nutrients
  dashboard's stacked bars; the aggregations have no error result.  (The chart function
  of the erosion dashboard itself answers an empty frame with an empty figure, before it
  aggregates.)
\<close>

theorem sum_reducer_skips_missing:
  "time_series_total_data df =
     map (\<lambda>k. (k, sum_list (dropna (map e_OBS_VALUE
            [r \<leftarrow> df. e_EROSION_LEVEL r = ''_T'' \<and> series_key r = Some k]))))
       (group_keys series_key [r \<leftarrow> df. e_EROSION_LEVEL r = ''_T''])
   \<and> series_sum (vs @ None # ws) = series_sum (vs @ ws)
   \<and> series_sum (vs @ Some x # ws) = series_sum (vs @ ws) + x
   \<and> ((k, v) \<in> set (time_series_total_data df) \<and>
        (\<forall>r \<in> set df. e_EROSION_LEVEL r = ''_T'' \<and> series_key r = Some k \<longrightarrow> e_OBS_VALUE r = None)
        \<longrightarrow> v = 0)
   \<and> series_sum [] = 0
   \<and> time_series_total_data [] = []
   \<and> ((\<forall>r \<in> set df. e_EROSION_LEVEL r \<noteq> ''_T'') \<longrightarrow> time_series_total_data df = [])
   \<and> render_stacked_bar_plot [] cat_type = []
   \<and> create_time_series_chart [] = None
   \<and> (df \<noteq> [] \<longrightarrow> create_time_series_chart df = Some (time_series_total_data df))"
proof -
  have rows: "time_series_total_data df =
     map (\<lambda>k. (k, sum_list (dropna (map e_OBS_VALUE
            [r \<leftarrow> df. e_EROSION_LEVEL r = ''_T'' \<and> series_key r = Some k]))))
       (group_keys series_key [r \<leftarrow> df. e_EROSION_LEVEL r = ''_T''])"
    by (simp add: time_series_total_data_def groupby_sum_def group_rows_def series_sum_def
        filter_filter_conj)
  have zero: "v = 0"
    if mem: "(k, v) \<in> set (time_series_total_data df)"
      and none: "\<forall>r \<in> set df. e_EROSION_LEVEL r = ''_T'' \<and> series_key r = Some k \<longrightarrow> e_OBS_VALUE r = None"
  proof -
    from none have "dropna (map e_OBS_VALUE
            [r \<leftarrow> df. e_EROSION_LEVEL r = ''_T'' \<and> series_key r = Some k]) = []"
      by (intro dropna_all_missing) auto
    with mem show ?thesis unfolding rows by auto
  qed
  have empty: "time_series_total_data df = []" if "\<forall>r \<in> set df. e_EROSION_LEVEL r \<noteq> ''_T''"
  proof -
    from that have "[r \<leftarrow> df. e_EROSION_LEVEL r = ''_T''] = []"
      by (simp add: filter_empty_conv)
    then show ?thesis by (simp add: time_series_total_data_def groupby_sum_def)
  qed
  have "time_series_total_data [] = []"
    by (simp add: time_series_total_data_def groupby_sum_def)
  moreover have "series_sum [] = 0" by (simp add: series_sum_def)
  moreover have "render_stacked_bar_plot [] cat_type = []"
    by (simp add: render_stacked_bar_plot_def groupby_sum_def)
  moreover have "create_time_series_chart [] = None"
    by (simp add: create_time_series_chart_def)
  moreover have "df \<noteq> [] \<longrightarrow> create_time_series_chart df = Some (time_series_total_data df)"
    by (simp add: create_time_series_chart_def)
  ultimately show ?thesis
    using rows zero empty series_sum_skip [of vs ws] series_sum_add [of vs x ws] by blast
qed

theorem sum_reducer_skips_missing_witness:
  "time_series_total_data (erosion_example @ erosion_missing_example) =
     [((''Chile'', 2000, ''Water''), 10), ((''Chile'', 2010, ''Water''), 12),
      ((''Spain'', 2020, ''Wind''), 0)]
   \<and> snd (last (time_series_total_data (erosion_example @ erosion_missing_example))) = 0
   \<and> time_series_total_data [\<lparr>e_Country = ''Spain'', e_Time = Some 2020,
        e_Types_of_Erosion = ''Wind'', e_EROSION_LEVEL = ''LW'', e_OBS_VALUE = Some 4\<rparr>] = []"
proof -
  let ?df = "erosion_example @ erosion_missing_example"
  let ?lw = "[\<lparr>e_Country = ''Spain'', e_Time = Some 2020,
        e_Types_of_Erosion = ''Wind'', e_EROSION_LEVEL = ''LW'', e_OBS_VALUE = Some 4\<rparr>]"
  let ?k = "fst (last (time_series_total_data ?df))"
  let ?v = "snd (last (time_series_total_data ?df))"
  have rows: "time_series_total_data ?df =
     [((''Chile'', 2000, ''Water''), 10), ((''Chile'', 2010, ''Water''), 12),
      ((''Spain'', 2020, ''Wind''), 0)]"
    by (simp add: time_series_total_data_def erosion_example_def erosion_missing_example_def
        groupby_sum_def group_keys_def group_rows_def series_sum_def series_key_def dropna_def)
  have k: "?k = (''Spain'', 2020, ''Wind'')" by (simp add: rows)
  have mem: "(?k, ?v) \<in> set (time_series_total_data ?df)"
    by (simp add: rows)
  have none: "\<forall>r \<in> set ?df. e_EROSION_LEVEL r = ''_T'' \<and> series_key r = Some ?k
      \<longrightarrow> e_OBS_VALUE r = None"
    unfolding k by (simp add: erosion_example_def erosion_missing_example_def series_key_def)
  from sum_reducer_skips_missing [of ?df _ _ _ ?k ?v] mem none
  have z: "?v = 0" by blast
  have lw: "\<forall>r \<in> set ?lw. e_EROSION_LEVEL r \<noteq> ''_T''" by simp
  from sum_reducer_skips_missing [of ?lw] lw
  have "time_series_total_data ?lw = []" by blast
  with rows z show ?thesis by simp
qed

text \<open>
  Claim C6, as the code has it.  The mean skips missing values: with at least one number
  it is the sum of the numbers over their count.  With no number at all (an empty group,
  or a group all of whose values are missing) it is NaN; no error is raised and no other
  signal is given.  The average of \<^verbatim>\<open>main\<close> is the number 0 for an empty filtered frame,
  and NaN, displayed as \<^verbatim>\<open>nan%\<close>, for a frame that is not empty and has no number at
  the total level.
\<close>

theorem mean_reducer_behaviour:
  "(dropna vs \<noteq> [] \<longrightarrow>
      series_mean vs = Fin (sum_list (dropna vs) / real (length (dropna vs))))
   \<and> (dropna vs = [] \<longrightarrow> series_mean vs = NaN)
   \<and> series_mean (vs @ None # ws) = series_mean (vs @ ws)
   \<and> comparison_total_data df =
       map (\<lambda>k. (k, series_mean (map e_OBS_VALUE
              [r \<leftarrow> df. e_EROSION_LEVEL r = ''_T'' \<and> (e_Country r, e_Types_of_Erosion r) = k])))
         (group_keys (\<lambda>r. Some (e_Country r, e_Types_of_Erosion r))
            [r \<leftarrow> df. e_EROSION_LEVEL r = ''_T''])
   \<and> ((k, m) \<in> set (comparison_total_data df) \<and>
        (\<forall>r \<in> set df. e_EROSION_LEVEL r = ''_T'' \<and> (e_Country r, e_Types_of_Erosion r) = k
            \<longrightarrow> e_OBS_VALUE r = None)
        \<longrightarrow> m = NaN)
   \<and> avg_erosion [] = Fin 0
   \<and> (filtered_df \<noteq> [] \<and>
        (\<forall>r \<in> set filtered_df. e_EROSION_LEVEL r = ''_T'' \<longrightarrow> e_OBS_VALUE r = None)
        \<longrightarrow> avg_erosion filtered_df = NaN \<and> avg_erosion_metric fmt filtered_df = ''nan%'')"
proof -
  have rows: "comparison_total_data df =
       map (\<lambda>k. (k, series_mean (map e_OBS_VALUE
              [r \<leftarrow> df. e_EROSION_LEVEL r = ''_T'' \<and> (e_Country r, e_Types_of_Erosion r) = k])))
         (group_keys (\<lambda>r. Some (e_Country r, e_Types_of_Erosion r))
            [r \<leftarrow> df. e_EROSION_LEVEL r = ''_T''])"
    by (simp add: comparison_total_data_def groupby_mean_def group_rows_def filter_filter_conj)
  have nan: "m = NaN"
    if mem: "(k, m) \<in> set (comparison_total_data df)"
      and none: "\<forall>r \<in> set df. e_EROSION_LEVEL r = ''_T'' \<and> (e_Country r, e_Types_of_Erosion r) = k
            \<longrightarrow> e_OBS_VALUE r = None"
  proof -
    from none have "dropna (map e_OBS_VALUE
            [r \<leftarrow> df. e_EROSION_LEVEL r = ''_T'' \<and> (e_Country r, e_Types_of_Erosion r) = k]) = []"
      by (intro dropna_all_missing) auto
    with mem show ?thesis unfolding rows by (auto simp add: series_mean_def)
  qed
  have avg: "avg_erosion filtered_df = NaN \<and> avg_erosion_metric fmt filtered_df = ''nan%''"
    if ne: "filtered_df \<noteq> []"
      and none: "\<forall>r \<in> set filtered_df. e_EROSION_LEVEL r = ''_T'' \<longrightarrow> e_OBS_VALUE r = None"
  proof -
    from none have "dropna (map e_OBS_VALUE [r \<leftarrow> filtered_df. e_EROSION_LEVEL r = ''_T'']) = []"
      by (intro dropna_all_missing) auto
    with ne show ?thesis
      by (simp add: avg_erosion_metric_def avg_erosion_def series_mean_def format_1f_def)
  qed
  have "avg_erosion [] = Fin 0" by (simp add: avg_erosion_def)
  moreover have "dropna vs \<noteq> [] \<longrightarrow>
      series_mean vs = Fin (sum_list (dropna vs) / real (length (dropna vs)))"
    by (simp add: series_mean_def Let_def)
  moreover have "dropna vs = [] \<longrightarrow> series_mean vs = NaN"
    by (simp add: series_mean_def)
  ultimately show ?thesis
    using rows nan avg series_mean_skip [of vs ws] by blast
qed

theorem mean_reducer_behaviour_witness:
  "series_mean [Some 10, None, Some 12] = Fin ((10 + 12) / 2)
   \<and> series_mean [None] = NaN
   \<and> avg_erosion erosion_missing_example = NaN
   \<and> avg_erosion_metric (\<lambda>x. ''0.0'') erosion_missing_example = ''nan%''"
proof -
  have some: "dropna [Some (10::real), None, Some 12] \<noteq> []" by (simp add: dropna_def)
  have none: "dropna [None :: real option] = []" by (simp add: dropna_def)
  have ne: "erosion_missing_example \<noteq> []" by (simp add: erosion_missing_example_def)
  have miss: "\<forall>r \<in> set erosion_missing_example. e_EROSION_LEVEL r = ''_T'' \<longrightarrow> e_OBS_VALUE r = None"
    by (simp add: erosion_missing_example_def)
  from mean_reducer_behaviour [of "[Some 10, None, Some 12]"] some
  have a: "series_mean [Some 10, None, Some 12] =
      Fin (sum_list (dropna [Some 10, None, Some 12]) / real (length (dropna [Some (10::real), None, Some 12])))"
    by blast
  from mean_reducer_behaviour [of "[None]"] none
  have b: "series_mean [None] = NaN" by blast
  from mean_reducer_behaviour [of _ _ _ _ _ erosion_missing_example "\<lambda>x. ''0.0''"] ne miss
  have c: "avg_erosion erosion_missing_example = NaN
      \<and> avg_erosion_metric (\<lambda>x. ''0.0'') erosion_missing_example = ''nan%''"
    by blast
  from a b c show ?thesis by (simp add: dropna_def)
qed

text \<open>
  An empty filtered frame gives the average 0.  A frame whose only row of the total level
  has a missing value gives the average NaN, shown as \<^verbatim>\<open>nan%\<close>, and the mean NaN for
  its group.
\<close>

theorem mean_reducer_counterexample:
  "avg_erosion [] = Fin 0
   \<and> avg_erosion erosion_missing_example = NaN
   \<and> avg_erosion_metric (\<lambda>x. ''0.0'') erosion_missing_example = ''nan%''
   \<and> comparison_total_data erosion_missing_example = [((''Spain'', ''Wind''), NaN)]"
  by (simp add: avg_erosion_def avg_erosion_metric_def erosion_missing_example_def
      series_mean_def dropna_def format_1f_def comparison_total_data_def groupby_mean_def
      group_keys_def group_rows_def)

section \<open>Properties of the rankings\<close>

lemma length_tail: "length (tail n xs) = min n (length xs)"
  by (simp add: tail_def)

lemma sorted_tail:
  fixes f :: "'a \<Rightarrow> 'b::linorder"
  shows "sorted (map f xs) \<Longrightarrow> sorted (map f (tail n xs))"
  by (simp add: tail_def drop_map [symmetric] sorted_wrt_drop)

lemma float64_rank_inj: "float64_rank a = float64_rank b \<Longrightarrow> a = b"
  by (cases a; cases b) (simp_all add: float64_rank_def)

lemma ascending_sort_sort_key: "ascending_sort key (sort_key key)"
  by (simp add: ascending_sort_def)

lemma ascending_sort_sort_key_rev: "ascending_sort key (\<lambda>xs. sort_key key (rev xs))"
  by (simp add: ascending_sort_def)

lemma ascending_sort_unique:
  fixes key :: "'r \<Rightarrow> 'k::linorder"
  assumes srt: "ascending_sort key srt" and dist: "distinct (map key table)"
  shows "srt table = sort_key key table"
proof -
  let ?ys = "srt table" and ?zs = "sort_key key table"
  from srt have m: "mset ?ys = mset table" and s: "sorted (map key ?ys)"
    by (simp_all add: ascending_sort_def)
  from m have set_ys: "set ?ys = set table" by (rule mset_eq_setD)
  from m have "mset (map key ?ys) = mset (map key table)" by simp
  then have "distinct (map key ?ys) = distinct (map key table)" by (rule mset_eq_imp_distinct_iff)
  with dist have d: "distinct (map key ?ys)" by simp
  have "map key ?ys = map key ?zs"
  proof (rule sorted_distinct_set_unique)
    show "sorted (map key ?ys)" by (rule s)
    show "distinct (map key ?ys)" by (rule d)
    show "sorted (map key ?zs)" by simp
    show "distinct (map key ?zs)" using dist by (simp add: distinct_map)
    show "set (map key ?ys) = set (map key ?zs)" by (simp add: set_ys)
  qed
  moreover from dist have "inj_on key (set ?ys \<union> set ?zs)"
    by (simp add: set_ys distinct_map)
  ultimately show ?thesis by (simp add: inj_on_map_eq_map)
qed

lemma top_n_split:
  assumes "ascending_sort key srt"
  shows "mset (take (length table - n) (srt table)) + mset (top_n srt n table) = mset table"
proof -
  have "mset (take (length table - n) (srt table)) + mset (drop (length table - n) (srt table)) =
      mset (srt table)"
    by (simp flip: mset_append)
  moreover from assms have "mset (srt table) = mset table" by (simp add: ascending_sort_def)
  moreover from this have "length (srt table) = length table" by (rule mset_eq_length)
  ultimately show ?thesis by (simp add: top_n_def tail_def)
qed

lemma top_n_largest:
  fixes key :: "'r \<Rightarrow> 'k::linorder"
  assumes "ascending_sort key srt"
    and "g \<in> set (take (length table - n) (srt table))" and "h \<in> set (top_n srt n table)"
  shows "key g \<le> key h"
proof -
  let ?k = "length table - n"
  from assms(1) have len: "length (srt table) = length table"
    by (auto simp add: ascending_sort_def dest: mset_eq_length)
  from assms(1) have "sorted (map key (take ?k (srt table) @ drop ?k (srt table)))"
    by (simp add: ascending_sort_def)
  then have "\<forall>a \<in> set (take ?k (srt table)). \<forall>b \<in> set (drop ?k (srt table)). key a \<le> key b"
    unfolding map_append sorted_append by auto
  with assms(2,3) show ?thesis by (simp add: top_n_def tail_def len)
qed

lemma length_top_n:
  assumes "ascending_sort key srt"
  shows "length (top_n srt n table) = min n (length table)"
proof -
  from assms have "length (srt table) = length table"
    by (auto simp add: ascending_sort_def dest: mset_eq_length)
  then show ?thesis by (simp add: top_n_def length_tail)
qed

text \<open>
  Claim C8, as the code has it.  Let the sort be any function that keeps what
  \<^verbatim>\<open>sort_values(ascending=True)\<close> promises.  For every table and n (15 in both sources) the
  ranking has min n (length of the table) rows, so at most n and fewer only when the
  table has fewer; its rows are rows of the table, each at most as often as the table has
  it.  When the rank column has no NaN, the ranking is in ascending order of the rank
  column, smallest first, every row left out ranks no higher than every row kept, and when
  moreover the values are all different the ranking is the same for every such sort.  The
  promise of the sort leaves the order of equal values open: two sorts that keep it order
  a tie differently.
\<close>

theorem top_n_is_ascending_tail:
  assumes "ascending_sort (\<lambda>g. float64_rank (snd g)) sort_values"
  shows "length (top_n sort_values n table) = min n (length table)
   \<and> length (top_n sort_values n table) \<le> n
   \<and> (\<exists>rest. mset rest + mset (top_n sort_values n table) = mset table
        \<and> (NaN \<notin> snd ` set table \<longrightarrow>
             (\<forall>g \<in> set rest. \<forall>h \<in> set (top_n sort_values n table).
                float64_rank (snd g) \<le> float64_rank (snd h))))
   \<and> (NaN \<notin> snd ` set table \<longrightarrow>
        sorted (map (\<lambda>g. float64_rank (snd g)) (top_n sort_values n table)))
   \<and> (NaN \<notin> snd ` set table \<and> distinct (map snd table) \<longrightarrow>
        top_n sort_values n table = tail n (sort_key (\<lambda>g. float64_rank (snd g)) table))
   \<and> country_avg sort_values table = top_n sort_values 15 table
   \<and> top_countries sort_values table = top_n sort_values 15 table
   \<and> ascending_sort (\<lambda>g. float64_rank (snd g))
        (sort_key (\<lambda>g :: string \<times> float64. float64_rank (snd g)))
   \<and> ascending_sort (\<lambda>g. float64_rank (snd g))
        (\<lambda>xs. sort_key (\<lambda>g :: string \<times> float64. float64_rank (snd g)) (rev xs))
   \<and> sort_key (\<lambda>g. float64_rank (snd g)) [(''A'', Fin 1), (''B'', Fin 1)] =
        [(''A'', Fin 1), (''B'', Fin 1)]
   \<and> sort_key (\<lambda>g. float64_rank (snd g)) (rev [(''A'', Fin 1), (''B'', Fin 1)]) =
        [(''B'', Fin 1), (''A'', Fin 1)]"
proof -
  let ?key = "\<lambda>g :: string \<times> float64. float64_rank (snd g)"
  let ?top = "top_n sort_values n table"
  let ?rest = "take (length table - n) (sort_values table)"
  have len: "length ?top = min n (length table)"
    using assms by (rule length_top_n)
  have split: "mset ?rest + mset ?top = mset table"
    using assms by (rule top_n_split)
  have "?key g \<le> ?key h" if "g \<in> set ?rest" and "h \<in> set ?top" for g h
    using assms that by (rule top_n_largest)
  then have big: "\<forall>g \<in> set ?rest. \<forall>h \<in> set ?top. ?key g \<le> ?key h"
    by blast
  have rest: "\<exists>rest. mset rest + mset ?top = mset table
        \<and> (NaN \<notin> snd ` set table \<longrightarrow> (\<forall>g \<in> set rest. \<forall>h \<in> set ?top. ?key g \<le> ?key h))"
    using split big by blast
  have srt: "sorted (map ?key ?top)"
    unfolding top_n_def using assms by (intro sorted_tail) (simp add: ascending_sort_def)
  have uniq: "?top = tail n (sort_key ?key table)" if "distinct (map snd table)"
  proof -
    have "inj_on float64_rank (set (map snd table))"
      by (rule inj_onI) (rule float64_rank_inj)
    with that have "distinct (map float64_rank (map snd table))"
      by (simp only: distinct_map simp_thms)
    then have "distinct (map ?key table)" by (simp add: o_def)
    with assms have "sort_values table = sort_key ?key table"
      by (rule ascending_sort_unique)
    then show ?thesis by (simp add: top_n_def)
  qed
  have tie1: "sort_key ?key [(''A'', Fin 1), (''B'', Fin 1)] = [(''A'', Fin 1), (''B'', Fin 1)]"
    by (simp add: float64_rank_def)
  have tie2: "sort_key ?key (rev [(''A'', Fin 1), (''B'', Fin 1)]) =
      [(''B'', Fin 1), (''A'', Fin 1)]"
    by (simp add: float64_rank_def)
  from len rest srt uniq tie1 tie2
    ascending_sort_sort_key [of ?key] ascending_sort_sort_key_rev [of ?key]
  show ?thesis
    by (simp add: country_avg_def top_countries_def)
qed

theorem top_n_is_ascending_tail_witness:
  "length (top_n (sort_key (\<lambda>g. float64_rank (snd g))) 2
      [(''Benin'', Fin 1), (''Chile'', Fin 3), (''Spain'', Fin 2)]) = 2
   \<and> top_n (sort_key (\<lambda>g. float64_rank (snd g))) 2
      [(''Benin'', Fin 1), (''Chile'', Fin 3), (''Spain'', Fin 2)] =
      [(''Spain'', Fin 2), (''Chile'', Fin 3)]
   \<and> sorted (map (\<lambda>g. float64_rank (snd g))
       (top_n (sort_key (\<lambda>g. float64_rank (snd g))) 2
          [(''Benin'', Fin 1), (''Chile'', Fin 3), (''Spain'', Fin 2)]))"
proof -
  let ?key = "\<lambda>g :: string \<times> float64. float64_rank (snd g)"
  let ?table = "[(''Benin'', Fin 1), (''Chile'', Fin 3), (''Spain'', Fin 2)]"
  have no_nan: "NaN \<notin> snd ` set ?table" by simp
  have dist: "distinct (map snd ?table)" by simp
  from top_n_is_ascending_tail [OF ascending_sort_sort_key, of 2 ?table] no_nan dist
  have "length (top_n (sort_key ?key) 2 ?table) = min 2 (length ?table)"
    and "sorted (map ?key (top_n (sort_key ?key) 2 ?table))"
    and "top_n (sort_key ?key) 2 ?table = tail 2 (sort_key ?key ?table)"
    by blast+
  then show ?thesis by (simp add: tail_def float64_rank_def)
qed

text \<open>
  The land frame of Chile 5, Spain 7 and Benin 0 has the sums Benin 0, Chile 5, Spain 7,
  and the erosion frame of Chile 3, Benin 1 and Spain 2 at the total level has the means
  Benin 1, Chile 3, Spain 2.  Both rankings list their three countries in ascending order,
  the smallest first, and not in descending order.  The values are all different, so the
  result is the same for every sort that keeps the promise.
\<close>

theorem top_n_counterexample:
  "map (\<lambda>g. (fst g, Fin (snd g))) (groupby_sum (\<lambda>r. Some (l_Country r)) l_Actual_area land_example) =
     [(''Benin'', Fin 0), (''Chile'', Fin 5), (''Spain'', Fin 7)]
   \<and> top_countries (sort_key (\<lambda>g. float64_rank (snd g)))
       [(''Benin'', Fin 0), (''Chile'', Fin 5), (''Spain'', Fin 7)] =
     [(''Benin'', Fin 0), (''Chile'', Fin 5), (''Spain'', Fin 7)]
   \<and> groupby_mean (\<lambda>r. Some (e_Country r)) e_OBS_VALUE
       [r \<leftarrow> erosion_ranking_example. e_EROSION_LEVEL r = ''_T''] =
     [(''Benin'', Fin 1), (''Chile'', Fin 3), (''Spain'', Fin 2)]
   \<and> country_avg (sort_key (\<lambda>g. float64_rank (snd g)))
       [(''Benin'', Fin 1), (''Chile'', Fin 3), (''Spain'', Fin 2)] =
     [(''Benin'', Fin 1), (''Spain'', Fin 2), (''Chile'', Fin 3)]"
  by (simp add: top_countries_def country_avg_def top_n_def tail_def float64_rank_def
      land_example_def erosion_ranking_example_def groupby_sum_def groupby_mean_def
      group_keys_def group_rows_def series_sum_def series_mean_def dropna_def)

end
